theory Spec2Isabelle
  imports Main "HOL-Library.Sublist"
begin

section \<open>Data model\<close>

text \<open>
  The three entities of the upstream email provider, as the interfaces of the cron
  routes declare them. An optional field (\<^verbatim>\<open>name?: string\<close>) and a nullable one
  (\<^verbatim>\<open>sent_at: string | null\<close>) are both an \<open>option\<close>: \<open>None\<close> is
  \<^verbatim>\<open>undefined\<close> or \<^verbatim>\<open>null\<close>. The broadcast record is the union of the two
  interfaces (the historical route declares fewer fields; the JSON it passes on is the
  provider's).
\<close>

record audience =
  aud_id :: string
  aud_name :: string
  aud_created_at :: string

record broadcast =
  bc_id :: string
  bc_audience_id :: string
  bc_name :: "string option"
  bc_subject :: "string option"
  bc_from :: "string option"
  bc_html :: "string option"
  bc_text :: "string option"
  bc_reply_to :: "string option"
  bc_preview_text :: "string option"
  bc_status :: "string option"
  bc_created_at :: string
  bc_sent_at :: "string option"
  bc_scheduled_at :: "string option"

record email =
  em_id :: string
  em_from :: string
  em_subject :: string
  em_html :: "string option"
  em_created_at :: string

text \<open>
  JavaScript truthiness of an optional string: \<^verbatim>\<open>undefined\<close>, \<^verbatim>\<open>null\<close> and the
  empty string are falsy. This is what \<^verbatim>\<open>!apiKey\<close>, \<^verbatim>\<open>!broadcastDetails.subject\<close>,
  \<^verbatim>\<open>if (lastEmailId)\<close> and \<^verbatim>\<open>currentLastId ? ... : ...\<close> test.
\<close>

fun truthy :: "string option \<Rightarrow> bool" where
  "truthy None = False"
| "truthy (Some s) = (s \<noteq> [])"

text \<open>
  The string a value is narrowed to once a truthiness guard has passed; it is only
  applied behind such a guard.
\<close>

fun narrowed :: "string option \<Rightarrow> string" where
  "narrowed None = []"
| "narrowed (Some s) = s"

text \<open>\<^verbatim>\<open>data.data || []\<close> and \<^verbatim>\<open>data.has_more || false\<close>.\<close>

fun or_empty :: "'a list option \<Rightarrow> 'a list" where
  "or_empty None = []"
| "or_empty (Some xs) = xs"

fun or_false :: "bool option \<Rightarrow> bool" where
  "or_false None = False"
| "or_false (Some b) = b"

subsection \<open>The upstream API\<close>

text \<open>
  A response of \<^verbatim>\<open>fetch\<close>: \<^verbatim>\<open>response.ok\<close>, \<^verbatim>\<open>response.status\<close> and the parsed
  JSON body. A list endpoint answers \<^verbatim>\<open>{data?: T[], has_more?: boolean}\<close>.
\<close>

record 'a response =
  ok :: bool
  status :: nat
  body :: 'a

record 'a listing =
  data :: "'a list option"
  has_more :: "bool option"

text \<open>
  The five requests the routes send, all to \<^verbatim>\<open>https://api.resend.com\<close>:
  \<^verbatim>\<open>/audiences?limit=100\<close>, \<^verbatim>\<open>/broadcasts?limit=100\<close>, \<^verbatim>\<open>/emails?limit=100\<close> with or
  without \<^verbatim>\<open>&before=<id>\<close>, \<^verbatim>\<open>/broadcasts/<id>\<close> and \<^verbatim>\<open>/emails/<id>\<close>.
\<close>

datatype request =
  ListAudiences
| ListBroadcasts
| ListEmails "string option"
| GetBroadcast string
| GetEmail string

text \<open>
  An upstream snapshot: what the provider answers to each request carrying a given API
  key (the first argument). Within one snapshot the same request gets the same answer.
\<close>

record upstream =
  audiences_endpoint :: "string \<Rightarrow> audience listing response"
  broadcasts_endpoint :: "string \<Rightarrow> broadcast listing response"
  emails_endpoint :: "string \<Rightarrow> string option \<Rightarrow> email listing response"
  broadcast_endpoint :: "string \<Rightarrow> string \<Rightarrow> broadcast response"
  email_endpoint :: "string \<Rightarrow> string \<Rightarrow> email response"

subsection \<open>The blob store\<close>

text \<open>
  What is stored under a key. \<^verbatim>\<open>JSON.stringify\<close> of a value is the constructor for
  its shape, so two blobs are byte-identical exactly when they are equal here.
  \<open>BroadcastMd b c\<close> is \<^verbatim>\<open>{...b, content: c}\<close>; \<open>TextBlob\<close> is a raw string
  (the cursor).
\<close>

datatype blob =
  AudiencesBlob "audience list"
| AudienceBlob audience
| BroadcastsBlob "broadcast list"
| BroadcastBlob broadcast
| BroadcastMd broadcast string
| EmailsBlob "email list"
| EmailBlob email
| TextBlob string

text \<open>
  The outcome of \<^verbatim>\<open>head(key)\<close>. The routes handle three: it throws (caught by the
  surrounding \<^verbatim>\<open>try\<close>), it returns nothing with a \<^verbatim>\<open>url\<close> (\<^verbatim>\<open>!blob?.url\<close>), or it
  returns the url of the stored blob, which \<^verbatim>\<open>fetch\<close> then reads. The store gives the
  outcome for every key; \<^verbatim>\<open>put\<close> makes it \<open>HeadUrl\<close>. For a key under which nothing
  was ever written \<^verbatim>\<open>head\<close> throws, as the \<^verbatim>\<open>catch\<close> blocks of the cron route expect
  (\<^verbatim>\<open>// No existing emails, first run\<close>).
\<close>

datatype head_result = HeadThrows | HeadNull | HeadUrl blob

subsection \<open>Effects\<close>

text \<open>
  Every suspension point of a run is an event of its trace, in the order it happens:
  an upstream call (with the API key it carries), a \<^verbatim>\<open>sleep(ms)\<close>, a \<^verbatim>\<open>put\<close>,
  a \<^verbatim>\<open>head\<close>.
\<close>

datatype event =
  Call string request
| Sleep nat
| Put string blob
| Head string

record sys =
  store :: "string \<Rightarrow> head_result"
  trace :: "event list"

definition call :: "string \<Rightarrow> request \<Rightarrow> sys \<Rightarrow> sys" where
  "call apiKey rq s = s\<lparr>trace := trace s @ [Call apiKey rq]\<rparr>"

definition sleep :: "nat \<Rightarrow> sys \<Rightarrow> sys" where
  "sleep ms s = s\<lparr>trace := trace s @ [Sleep ms]\<rparr>"

text \<open>
  \<^verbatim>\<open>put(key, value, {access: 'public', addRandomSuffix: false, allowOverwrite: true})\<close>:
  the key is overwritten. A write is taken to succeed, and a 2xx answer of the provider
  to carry a body that parses.
\<close>

definition put :: "string \<Rightarrow> blob \<Rightarrow> sys \<Rightarrow> sys" where
  "put k v s = s\<lparr>store := (store s)(k := HeadUrl v), trace := trace s @ [Put k v]\<rparr>"

definition head :: "string \<Rightarrow> sys \<Rightarrow> head_result \<times> sys" where
  "head k s = (store s k, s\<lparr>trace := trace s @ [Head k]\<rparr>)"

subsection \<open>Configuration, request and reply of the trigger endpoint\<close>

record env =
  CRON_SECRET :: "string option"
  RESEND_API_KEY :: "string option"
  RESEND_AUDIENCE_ID :: "string option"

text \<open>A template literal prints an undefined value as \<^verbatim>\<open>undefined\<close>.\<close>

fun interpolate :: "string option \<Rightarrow> string" where
  "interpolate None = ''undefined''"
| "interpolate (Some s) = s"

text \<open>\<^verbatim>\<open>request.headers.get('authorization')\<close> is \<^verbatim>\<open>null\<close> when the header is absent.\<close>

record http_request =
  authorization :: "string option"

text \<open>The message of the \<^verbatim>\<open>Error\<close> a fetch function throws, with the status it prints.\<close>

datatype error =
  FailedToFetchAudiences nat
| FailedToFetchBroadcasts nat
| FailedToFetchEmails nat

text \<open>
  The JSON bodies of the trigger endpoint: \<^verbatim>\<open>{error}\<close>, \<^verbatim>\<open>{error, details}\<close>,
  \<^verbatim>\<open>{success: true, audiences, broadcasts}\<close> and the historical
  \<^verbatim>\<open>{success: true, audiences, broadcasts, newEmails, totalEmails}\<close>.
\<close>

datatype cron_json =
  ErrorJson string
| ErrorDetails string error
| Success nat nat
| SuccessEmails nat nat nat nat

record reply =
  code :: nat
  json :: cron_json

section \<open>The fetch functions shared by both cron routes\<close>

definition fetchAudiences :: "upstream \<Rightarrow> string \<Rightarrow> sys \<Rightarrow> (error + audience list) \<times> sys" where
  "fetchAudiences up apiKey s =
    (let s1 = call apiKey ListAudiences s;
         response = audiences_endpoint up apiKey
     in if \<not> ok response then (Inl (FailedToFetchAudiences (status response)), s1)
        else (Inr (or_empty (data (body response))), sleep 500 s1))"

definition fetchBroadcasts ::
  "upstream \<Rightarrow> string \<Rightarrow> string \<Rightarrow> sys \<Rightarrow> (error + broadcast list) \<times> sys" where
  "fetchBroadcasts up apiKey audienceId s =
    (let s1 = call apiKey ListBroadcasts s;
         response = broadcasts_endpoint up apiKey
     in if \<not> ok response then (Inl (FailedToFetchBroadcasts (status response)), s1)
        else let allBroadcasts = or_empty (data (body response))
             in (Inr (filter (\<lambda>b. bc_audience_id b = audienceId) allBroadcasts), sleep 500 s1))"

definition fetchBroadcastDetails ::
  "upstream \<Rightarrow> string \<Rightarrow> string \<Rightarrow> sys \<Rightarrow> broadcast option \<times> sys" where
  "fetchBroadcastDetails up apiKey broadcastId s =
    (let s1 = call apiKey (GetBroadcast broadcastId) s;
         response = broadcast_endpoint up apiKey broadcastId
     in if \<not> ok response then (None, sleep 500 s1)
        else (Some (body response), sleep 500 s1))"

text \<open>The two loops \<^verbatim>\<open>for (const x of xs) await put(`rss_..._${x.id}`, JSON.stringify(x))\<close>.\<close>

fun put_audiences :: "audience list \<Rightarrow> sys \<Rightarrow> sys" where
  "put_audiences [] s = s"
| "put_audiences (a # as) s =
     put_audiences as (put (''rss_audience_'' @ aud_id a) (AudienceBlob a) s)"

fun put_broadcasts :: "broadcast list \<Rightarrow> sys \<Rightarrow> sys" where
  "put_broadcasts [] s = s"
| "put_broadcasts (b # bs) s =
     put_broadcasts bs (put (''rss_broadcast_'' @ bc_id b) (BroadcastBlob b) s)"

section \<open>The current cron route\<close>

text \<open>
  \<^verbatim>\<open>fetchAndStoreBroadcastsWithHtml\<close>: the HTML to Markdown converter
  (\<^verbatim>\<open>turndown.turndown\<close>) is a parameter.
\<close>

fun fetchAndStoreBroadcastsWithHtml ::
  "upstream \<Rightarrow> (string \<Rightarrow> string) \<Rightarrow> string \<Rightarrow> broadcast list \<Rightarrow> sys \<Rightarrow> sys" where
  "fetchAndStoreBroadcastsWithHtml up turndown apiKey [] s = s"
| "fetchAndStoreBroadcastsWithHtml up turndown apiKey (b # bs) s =
    (case fetchBroadcastDetails up apiKey (bc_id b) s of
       (None, s1) \<Rightarrow> fetchAndStoreBroadcastsWithHtml up turndown apiKey bs s1
     | (Some broadcastDetails, s1) \<Rightarrow>
         (case bc_html broadcastDetails of
            None \<Rightarrow> fetchAndStoreBroadcastsWithHtml up turndown apiKey bs s1
          | Some html \<Rightarrow>
              if html = [] then fetchAndStoreBroadcastsWithHtml up turndown apiKey bs s1
              else
                let s2 = put (''rss_broadcast_'' @ bc_id b @ ''_info'')
                           (BroadcastBlob broadcastDetails) s1;
                    markdown = turndown html;
                    s3 = put (''rss_broadcast_'' @ bc_id b @ ''_info_md'')
                           (BroadcastMd broadcastDetails markdown) s2
                in fetchAndStoreBroadcastsWithHtml up turndown apiKey bs s3))"

definition GET_current ::
  "env \<Rightarrow> upstream \<Rightarrow> (string \<Rightarrow> string) \<Rightarrow> http_request \<Rightarrow> sys \<Rightarrow> reply \<times> sys" where
  "GET_current e up turndown req s =
    (if authorization req \<noteq> Some (''Bearer '' @ interpolate (CRON_SECRET e))
     then (\<lparr>code = 401, json = ErrorJson ''Unauthorized''\<rparr>, s)
     else if \<not> truthy (RESEND_API_KEY e) \<or> \<not> truthy (RESEND_AUDIENCE_ID e)
     then (\<lparr>code = 500, json = ErrorJson ''Missing RESEND_API_KEY or RESEND_AUDIENCE_ID''\<rparr>, s)
     else
       let apiKey = narrowed (RESEND_API_KEY e);
           audienceId = narrowed (RESEND_AUDIENCE_ID e)
       in case fetchAudiences up apiKey s of
            (Inl err, s1) \<Rightarrow> (\<lparr>code = 500, json = ErrorDetails ''Failed to sync data'' err\<rparr>, s1)
          | (Inr audiences, s1) \<Rightarrow>
              let s2 = put ''rss_audiences'' (AudiencesBlob audiences) s1;
                  s3 = put_audiences audiences s2
              in (case fetchBroadcasts up apiKey audienceId s3 of
                   (Inl err, s4) \<Rightarrow>
                     (\<lparr>code = 500, json = ErrorDetails ''Failed to sync data'' err\<rparr>, s4)
                 | (Inr broadcasts, s4) \<Rightarrow>
                     let s5 = put ''rss_broadcasts'' (BroadcastsBlob broadcasts) s4;
                         s6 = put_broadcasts broadcasts s5;
                         s7 = fetchAndStoreBroadcastsWithHtml up turndown apiKey broadcasts s6
                     in (\<lparr>code = 200, json = Success (length audiences) (length broadcasts)\<rparr>, s7)))"

section \<open>The historical cron route\<close>

text \<open>
  A computation that holds a loop which may not end takes a bound on the number of
  iterations: \<open>Running\<close> is the loop still wanting another page when the bound is
  reached, \<open>Thrown\<close> an exception, \<open>Returned\<close> a result.
\<close>

datatype 'a outcome = Running | Thrown error | Returned 'a

text \<open>
  The \<^verbatim>\<open>while (hasMore)\<close> loop of \<^verbatim>\<open>fetchEmailsIncrementally\<close>, entered with
  \<^verbatim>\<open>hasMore = true\<close>; the first argument bounds the pages requested.
\<close>

fun fetchEmailsIncrementally_loop ::
  "nat \<Rightarrow> upstream \<Rightarrow> string \<Rightarrow> string option \<Rightarrow> email list \<Rightarrow> string option \<Rightarrow> sys
    \<Rightarrow> email list outcome \<times> sys" where
  "fetchEmailsIncrementally_loop 0 up apiKey lastEmailId newEmails currentLastId s = (Running, s)"
| "fetchEmailsIncrementally_loop (Suc n) up apiKey lastEmailId newEmails currentLastId s =
    (let beforeId = (if truthy currentLastId then currentLastId else None);
         s1 = call apiKey (ListEmails beforeId) s;
         response = emails_endpoint up apiKey beforeId
     in if \<not> ok response then (Thrown (FailedToFetchEmails (status response)), s1)
        else
          let emails = or_empty (data (body response))
          in if emails = [] then (Returned newEmails, s1)
             else
               let newEmails' = newEmails @ emails
               in if truthy lastEmailId then (Returned newEmails', sleep 500 s1)
                  else
                    let hasMore = or_false (has_more (body response));
                        currentLastId' =
                          (if hasMore then Some (em_id (last emails)) else currentLastId);
                        s2 = sleep 500 s1
                    in if hasMore
                       then fetchEmailsIncrementally_loop n up apiKey lastEmailId newEmails'
                              currentLastId' s2
                       else (Returned newEmails', s2))"

text \<open>
  The two reads of prior state. Either \<^verbatim>\<open>try\<close> block leaves its default when
  \<^verbatim>\<open>head\<close> throws or gives no url. A blob of another shape than the route writes under
  the key is read as a failed parse, which the same \<^verbatim>\<open>catch\<close> swallows.
\<close>

fun existingEmails_of :: "head_result \<Rightarrow> email list" where
  "existingEmails_of (HeadUrl (EmailsBlob es)) = es"
| "existingEmails_of _ = []"

fun lastEmailId_of :: "head_result \<Rightarrow> string option" where
  "lastEmailId_of (HeadUrl (TextBlob t)) = Some t"
| "lastEmailId_of _ = None"

definition fetchEmailsIncrementally ::
  "nat \<Rightarrow> upstream \<Rightarrow> string \<Rightarrow> sys \<Rightarrow> (email list \<times> email list) outcome \<times> sys" where
  "fetchEmailsIncrementally fuel up apiKey s =
    (let (emailsBlob, s1) = head ''rss_emails'' s;
         existingEmails = existingEmails_of emailsBlob;
         (lastIdBlob, s2) = head ''rss_last_email_id'' s1;
         lastEmailId = lastEmailId_of lastIdBlob
     in case fetchEmailsIncrementally_loop fuel up apiKey lastEmailId [] lastEmailId s2 of
          (Running, s3) \<Rightarrow> (Running, s3)
        | (Thrown err, s3) \<Rightarrow> (Thrown err, s3)
        | (Returned newEmails, s3) \<Rightarrow> (Returned (newEmails, newEmails @ existingEmails), s3))"

definition fetchEmailDetails ::
  "upstream \<Rightarrow> string \<Rightarrow> string \<Rightarrow> sys \<Rightarrow> email option \<times> sys" where
  "fetchEmailDetails up apiKey emailId s =
    (let s1 = call apiKey (GetEmail emailId) s;
         response = email_endpoint up apiKey emailId
     in if \<not> ok response then (None, sleep 500 s1)
        else (Some (body response), sleep 500 s1))"

text \<open>
  The correlator: \<^verbatim>\<open>emails.find((email) => email.subject === broadcastDetails.subject
  && email.from === broadcastDetails.from)\<close>.
\<close>

definition matchingEmail :: "broadcast \<Rightarrow> email list \<Rightarrow> email option" where
  "matchingEmail broadcastDetails emails =
     find (\<lambda>email. Some (em_subject email) = bc_subject broadcastDetails
                  \<and> Some (em_from email) = bc_from broadcastDetails) emails"

fun matchAndStore ::
  "upstream \<Rightarrow> (string \<Rightarrow> string) \<Rightarrow> string \<Rightarrow> broadcast list \<Rightarrow> email list \<Rightarrow> sys \<Rightarrow> sys" where
  "matchAndStore up turndown apiKey [] emails s = s"
| "matchAndStore up turndown apiKey (b # bs) emails s =
    (case fetchBroadcastDetails up apiKey (bc_id b) s of
       (None, s1) \<Rightarrow> matchAndStore up turndown apiKey bs emails s1
     | (Some broadcastDetails, s1) \<Rightarrow>
         if \<not> truthy (bc_subject broadcastDetails) \<or> \<not> truthy (bc_from broadcastDetails)
         then matchAndStore up turndown apiKey bs emails s1
         else
           (case matchingEmail broadcastDetails emails of
              None \<Rightarrow> matchAndStore up turndown apiKey bs emails s1
            | Some found \<Rightarrow>
                (case fetchEmailDetails up apiKey (em_id found) s1 of
                   (None, s2) \<Rightarrow> matchAndStore up turndown apiKey bs emails s2
                 | (Some emailDetails, s2) \<Rightarrow>
                     (case em_html emailDetails of
                        None \<Rightarrow> matchAndStore up turndown apiKey bs emails s2
                      | Some html \<Rightarrow>
                          if html = [] then matchAndStore up turndown apiKey bs emails s2
                          else
                            let s3 = put (''rss_broadcast_'' @ bc_id b @ ''_info'')
                                       (BroadcastBlob (broadcastDetails\<lparr>bc_html := Some html\<rparr>)) s2;
                                markdown = turndown html;
                                s4 = put (''rss_broadcast_'' @ bc_id b @ ''_info_md'')
                                       (BroadcastMd broadcastDetails markdown) s3
                            in matchAndStore up turndown apiKey bs emails s4))))"

fun put_emails :: "email list \<Rightarrow> sys \<Rightarrow> sys" where
  "put_emails [] s = s"
| "put_emails (e # es) s = put_emails es (put (''rss_email_'' @ em_id e) (EmailBlob e) s)"

text \<open>\<^verbatim>\<open>if (allEmails.length > 0) await put('rss_last_email_id', allEmails[0].id)\<close>.\<close>

fun put_last_email_id :: "email list \<Rightarrow> sys \<Rightarrow> sys" where
  "put_last_email_id [] s = s"
| "put_last_email_id (e # es) s = put ''rss_last_email_id'' (TextBlob (em_id e)) s"

text \<open>
  The reply is \<open>None\<close> while the run is still paginating when the bound on pages is
  reached; the state is the one reached so far.
\<close>

definition GET_historical ::
  "nat \<Rightarrow> env \<Rightarrow> upstream \<Rightarrow> (string \<Rightarrow> string) \<Rightarrow> http_request \<Rightarrow> sys
    \<Rightarrow> reply option \<times> sys" where
  "GET_historical fuel e up turndown req s =
    (if authorization req \<noteq> Some (''Bearer '' @ interpolate (CRON_SECRET e))
     then (Some \<lparr>code = 401, json = ErrorJson ''Unauthorized''\<rparr>, s)
     else if \<not> truthy (RESEND_API_KEY e) \<or> \<not> truthy (RESEND_AUDIENCE_ID e)
     then (Some \<lparr>code = 500, json = ErrorJson ''Missing RESEND_API_KEY or RESEND_AUDIENCE_ID''\<rparr>, s)
     else
       let apiKey = narrowed (RESEND_API_KEY e);
           audienceId = narrowed (RESEND_AUDIENCE_ID e)
       in case fetchAudiences up apiKey s of
            (Inl err, s1) \<Rightarrow>
              (Some \<lparr>code = 500, json = ErrorDetails ''Failed to sync data'' err\<rparr>, s1)
          | (Inr audiences, s1) \<Rightarrow>
              let s2 = put ''rss_audiences'' (AudiencesBlob audiences) s1;
                  s3 = put_audiences audiences s2
              in (case fetchBroadcasts up apiKey audienceId s3 of
                   (Inl err, s4) \<Rightarrow>
                     (Some \<lparr>code = 500, json = ErrorDetails ''Failed to sync data'' err\<rparr>, s4)
                 | (Inr broadcasts, s4) \<Rightarrow>
                     let s5 = put ''rss_broadcasts'' (BroadcastsBlob broadcasts) s4;
                         s6 = put_broadcasts broadcasts s5
                     in (case fetchEmailsIncrementally fuel up apiKey s6 of
                          (Running, s7) \<Rightarrow> (None, s7)
                        | (Thrown err, s7) \<Rightarrow>
                            (Some \<lparr>code = 500, json = ErrorDetails ''Failed to sync data'' err\<rparr>, s7)
                        | (Returned (newEmails, allEmails), s7) \<Rightarrow>
                            let s8 = put ''rss_emails'' (EmailsBlob allEmails) s7;
                                s9 = put_emails newEmails s8;
                                s10 = put_last_email_id allEmails s9;
                                s11 = matchAndStore up turndown apiKey broadcasts newEmails s10
                            in (Some \<lparr>code = 200,
                                      json = SuccessEmails (length audiences) (length broadcasts)
                                               (length newEmails) (length allEmails)\<rparr>, s11))))"

section \<open>The broadcast detail endpoint\<close>

record page =
  page_status :: nat
  page_body :: string
  content_type :: "string option"

text \<open>
  \<^verbatim>\<open>data.html\<close> of the parsed blob: \<open>None\<close> when \<^verbatim>\<open>response.json()\<close> throws (a raw
  text is not read as JSON), otherwise the value of the field, absent on the shapes that
  have none.
\<close>

fun json_html :: "blob \<Rightarrow> string option option" where
  "json_html (BroadcastBlob b) = Some (bc_html b)"
| "json_html (BroadcastMd b c) = Some (bc_html b)"
| "json_html (EmailBlob e) = Some (em_html e)"
| "json_html (TextBlob t) = None"
| "json_html _ = Some None"

definition GET_broadcast :: "string \<Rightarrow> sys \<Rightarrow> page \<times> sys" where
  "GET_broadcast ident s =
    (case head (''rss_broadcast_'' @ ident @ ''_info'') s of
       (HeadThrows, s1) \<Rightarrow>
         (\<lparr>page_status = 500, page_body = ''Failed to fetch broadcast'', content_type = None\<rparr>, s1)
     | (HeadNull, s1) \<Rightarrow>
         (\<lparr>page_status = 404, page_body = ''Broadcast not found'', content_type = None\<rparr>, s1)
     | (HeadUrl contentBlob, s1) \<Rightarrow>
         (case json_html contentBlob of
            None \<Rightarrow>
              (\<lparr>page_status = 500, page_body = ''Failed to fetch broadcast'',
                content_type = None\<rparr>, s1)
          | Some html \<Rightarrow>
              if \<not> truthy html
              then (\<lparr>page_status = 404, page_body = ''HTML content not available'',
                     content_type = None\<rparr>, s1)
              else (\<lparr>page_status = 200, page_body = narrowed html,
                     content_type = Some ''text/html''\<rparr>, s1)))"

section \<open>Names for the stages of a run\<close>

text \<open>
  What the two list fetches return when the provider answers them, and the states a
  run passes through: after the two reads of prior state, after the audiences were
  stored, and after the broadcasts were stored.
\<close>

definition audiences_of :: "upstream \<Rightarrow> string \<Rightarrow> audience list" where
  "audiences_of up apiKey = or_empty (data (body (audiences_endpoint up apiKey)))"

definition broadcasts_of :: "upstream \<Rightarrow> string \<Rightarrow> string \<Rightarrow> broadcast list" where
  "broadcasts_of up apiKey audienceId =
     filter (\<lambda>b. bc_audience_id b = audienceId)
       (or_empty (data (body (broadcasts_endpoint up apiKey))))"

definition audiences_stored :: "upstream \<Rightarrow> string \<Rightarrow> sys \<Rightarrow> sys" where
  "audiences_stored up apiKey s =
     put_audiences (audiences_of up apiKey)
       (put ''rss_audiences'' (AudiencesBlob (audiences_of up apiKey))
          (sleep 500 (call apiKey ListAudiences s)))"

definition lists_stored :: "upstream \<Rightarrow> string \<Rightarrow> string \<Rightarrow> sys \<Rightarrow> sys" where
  "lists_stored up apiKey audienceId s =
     put_broadcasts (broadcasts_of up apiKey audienceId)
       (put ''rss_broadcasts'' (BroadcastsBlob (broadcasts_of up apiKey audienceId))
          (sleep 500 (call apiKey ListBroadcasts (audiences_stored up apiKey s))))"

definition reads_done :: "sys \<Rightarrow> sys" where
  "reads_done s = snd (head ''rss_last_email_id'' (snd (head ''rss_emails'' s)))"

section \<open>The anchor of an emails request\<close>

text \<open>
  The \<^verbatim>\<open>before\<close> parameter a cursor gives the emails request: none for a falsy
  cursor.
\<close>

definition anchor :: "string option \<Rightarrow> string option" where
  "anchor cur = (if truthy cur then cur else None)"



section \<open>Stages that only overwrite keys\<close>

text \<open>
  A stage overwrites when its effect on the store is to set some keys to values that do
  not depend on the store it starts from, and to leave every other key as it was.
\<close>

definition overwrites :: "(sys \<Rightarrow> sys) \<Rightarrow> bool" where
  "overwrites f =
     (\<exists>w. \<forall>s. store (f s) = (\<lambda>k. case w k of None \<Rightarrow> store s k | Some v \<Rightarrow> HeadUrl v))"

text \<open>
  No broadcast of the list has an id that is another's id followed by \<^verbatim>\<open>_info\<close> or
  \<^verbatim>\<open>_info_md\<close>, so that no summary key \<^verbatim>\<open>rss_broadcast_<id>\<close> is also an info key.
\<close>

definition distinct_info_keys :: "broadcast list \<Rightarrow> bool" where
  "distinct_info_keys bs =
     list_all (\<lambda>b. list_all (\<lambda>b'. bc_id b \<noteq> bc_id b' @ ''_info''
                                  \<and> bc_id b \<noteq> bc_id b' @ ''_info_md'') bs) bs"

text \<open>
  The provider lists no new email at the cursor stored in \<open>s\<close>: the emails request
  anchored there is refused or answers an empty page.
\<close>

definition nothing_new :: "upstream \<Rightarrow> string \<Rightarrow> sys \<Rightarrow> bool" where
  "nothing_new up apiKey s =
     (let r = emails_endpoint up apiKey (anchor (lastEmailId_of (store s ''rss_last_email_id'')))
      in \<not> ok r \<or> or_empty (data (body r)) = [])"

section \<open>Observations on traces\<close>

text \<open>The upstream requests of a trace, in order, and the values written under a key.\<close>

fun calls :: "event list \<Rightarrow> request list" where
  "calls [] = []"
| "calls (Call apiKey rq # es) = rq # calls es"
| "calls (e # es) = calls es"

fun writes_to :: "string \<Rightarrow> event list \<Rightarrow> blob list" where
  "writes_to k [] = []"
| "writes_to k (Put k' v # es) = (if k' = k then v # writes_to k es else writes_to k es)"
| "writes_to k (e # es) = writes_to k es"

text \<open>
  Rate-limit spacing. \<open>rested_after r es\<close>: a delay of at least 500ms has elapsed
  since the last upstream call at the end of \<open>es\<close> (\<open>r\<close> says so for its start).
  \<open>spaced r es\<close>: every upstream call of \<open>es\<close> starts rested, so between two
  consecutive calls there is such a delay. \<open>every_call_delayed\<close> asks in addition
  that the last call too is followed by its delay.
\<close>

fun rested_after :: "bool \<Rightarrow> event list \<Rightarrow> bool" where
  "rested_after r [] = r"
| "rested_after r (Call apiKey rq # es) = rested_after False es"
| "rested_after r (Sleep ms # es) = rested_after (r \<or> 500 \<le> ms) es"
| "rested_after r (e # es) = rested_after r es"

fun spaced :: "bool \<Rightarrow> event list \<Rightarrow> bool" where
  "spaced r [] = True"
| "spaced r (Call apiKey rq # es) = (r \<and> spaced False es)"
| "spaced r (Sleep ms # es) = spaced (r \<or> 500 \<le> ms) es"
| "spaced r (e # es) = spaced r es"


section \<open>The correlation rule as the design states it\<close>

text \<open>
  A broadcast and an email correlate when the broadcast's subject equals the email's
  subject and the broadcast's from equals the email's from.
\<close>

definition same_subject_and_from :: "broadcast \<Rightarrow> email \<Rightarrow> bool" where
  "same_subject_and_from b email =
     (bc_subject b = Some (em_subject email) \<and> bc_from b = Some (em_from email))"

section \<open>Pagination as the design describes it\<close>

text \<open>
  \<open>paginates up apiKey cur ps\<close>: starting at cursor \<open>cur\<close> the provider hands out
  exactly the pages \<open>ps\<close>, each request anchored at the last id of the page before:
  every page but the last is non-empty and reports more, the last is empty or reports
  no more.
\<close>

fun paginates :: "upstream \<Rightarrow> string \<Rightarrow> string option \<Rightarrow> email list list \<Rightarrow> bool" where
  "paginates up apiKey cur [] = False"
| "paginates up apiKey cur [p] =
     (let r = emails_endpoint up apiKey (anchor cur)
      in ok r \<and> or_empty (data (body r)) = p \<and> (p = [] \<or> \<not> or_false (has_more (body r))))"
| "paginates up apiKey cur (p # q # ps) =
     (let r = emails_endpoint up apiKey (anchor cur)
      in ok r \<and> or_empty (data (body r)) = p \<and> p \<noteq> [] \<and> or_false (has_more (body r))
         \<and> paginates up apiKey (Some (em_id (last p))) (q # ps))"

text \<open>The \<^verbatim>\<open>before\<close> parameters of the requests that fetch the pages \<open>ps\<close>.\<close>

fun anchors :: "string option \<Rightarrow> email list list \<Rightarrow> string option list" where
  "anchors cur [] = []"
| "anchors cur (p # ps) = anchor cur # anchors (Some (em_id (last p))) ps"

section \<open>Sample data\<close>

definition sample_audience :: audience where
  "sample_audience = \<lparr>aud_id = ''a1'', aud_name = ''Readers'', aud_created_at = ''2024-01-01''\<rparr>"

definition sample_broadcast ::
  "string \<Rightarrow> string \<Rightarrow> string option \<Rightarrow> string option \<Rightarrow> string option \<Rightarrow> broadcast" where
  "sample_broadcast ident aud subj sender html =
     \<lparr>bc_id = ident, bc_audience_id = aud, bc_name = None, bc_subject = subj, bc_from = sender,
      bc_html = html, bc_text = None, bc_reply_to = None, bc_preview_text = None,
      bc_status = None, bc_created_at = ''2024-01-01'', bc_sent_at = None,
      bc_scheduled_at = None\<rparr>"

definition sample_email :: "string \<Rightarrow> string \<Rightarrow> string \<Rightarrow> string option \<Rightarrow> email" where
  "sample_email ident sender subj html =
     \<lparr>em_id = ident, em_from = sender, em_subject = subj, em_html = html,
      em_created_at = ''2024-01-02''\<rparr>"

definition answer :: "'a \<Rightarrow> 'a response" where
  "answer b = \<lparr>ok = True, status = 200, body = b\<rparr>"

definition refusal :: "nat \<Rightarrow> 'a \<Rightarrow> 'a response" where
  "refusal st b = \<lparr>ok = False, status = st, body = b\<rparr>"

definition listing_of :: "'a list \<Rightarrow> bool \<Rightarrow> 'a listing" where
  "listing_of xs m = \<lparr>data = Some xs, has_more = Some m\<rparr>"

text \<open>
  A provider with one audience, three broadcasts (one of another audience), three emails
  on two pages, details for broadcast \<open>b1\<close> only, and details for every email.
\<close>

definition sample_upstream :: upstream where
  "sample_upstream =
     \<lparr>audiences_endpoint = (\<lambda>apiKey. answer (listing_of [sample_audience] False)),
      broadcasts_endpoint = (\<lambda>apiKey. answer (listing_of
         [sample_broadcast ''b1'' ''a1'' None None None,
          sample_broadcast ''b2'' ''a2'' None None None,
          sample_broadcast ''b3'' ''a1'' None None None] False)),
      emails_endpoint = (\<lambda>apiKey beforeId.
         if beforeId = None
         then answer (listing_of [sample_email ''e3'' ''x@y.com'' ''Hi'' None,
                                  sample_email ''e2'' ''x@y.com'' ''Hi'' None] True)
         else if beforeId = Some ''e2''
         then answer (listing_of [sample_email ''e1'' ''x@y.com'' ''Old'' None] False)
         else answer (listing_of [] False)),
      broadcast_endpoint = (\<lambda>apiKey ident.
         if ident = ''b1''
         then answer (sample_broadcast ''b1'' ''a1'' (Some ''Hi'') (Some ''x@y.com'')
                        (Some ''<p>Hi</p>''))
         else refusal 404 (sample_broadcast ident [] None None None)),
      email_endpoint = (\<lambda>apiKey ident.
         answer (sample_email ident ''x@y.com'' ''Hi'' (Some ''<p>Hi</p>'')))\<rparr>"

text \<open>The same provider with no email to list.\<close>

definition quiet_upstream :: upstream where
  "quiet_upstream =
     sample_upstream\<lparr>emails_endpoint := (\<lambda>apiKey beforeId. answer (listing_of [] False))\<rparr>"

text \<open>
  The same provider holding two emails and reading \<^verbatim>\<open>before=<id>\<close> as the full fetch
  relies on it: it lists the emails older than the one named.
\<close>

definition older_upstream :: upstream where
  "older_upstream =
     sample_upstream\<lparr>emails_endpoint := (\<lambda>apiKey beforeId.
        if beforeId = None
        then answer (listing_of [sample_email ''e2'' ''x@y.com'' ''Hi'' None,
                                 sample_email ''e1'' ''x@y.com'' ''Old'' None] False)
        else if beforeId = Some ''e2''
        then answer (listing_of [sample_email ''e1'' ''x@y.com'' ''Old'' None] False)
        else answer (listing_of [] False))\<rparr>"

text \<open>
  A provider with one email and two broadcasts of the audience, the id of the second
  being the id of the first followed by \<^verbatim>\<open>_info\<close>.
\<close>

definition colliding_upstream :: upstream where
  "colliding_upstream =
     sample_upstream\<lparr>
       broadcasts_endpoint := (\<lambda>apiKey. answer (listing_of
          [sample_broadcast ''b1'' ''a1'' None None None,
           sample_broadcast ''b1_info'' ''a1'' None None None] False)),
       emails_endpoint := (\<lambda>apiKey beforeId.
          if beforeId = None
          then answer (listing_of [sample_email ''e3'' ''x@y.com'' ''Hi'' None] False)
          else answer (listing_of [] False))\<rparr>"

text \<open>
  A provider that holds the list \<open>xs\<close> answers a list request of limit \<open>n\<close> with the
  first \<open>n\<close> of them, and sets \<^verbatim>\<open>has_more\<close> when it holds more.
\<close>

definition provider_page :: "nat \<Rightarrow> 'a list \<Rightarrow> 'a listing" where
  "provider_page n xs = \<lparr>data = Some (take n xs), has_more = Some (n < length xs)\<rparr>"

text \<open>
  A provider holding 101 broadcasts: a hundred of another audience, then \<open>b1\<close> of the
  configured audience. Its answer to \<^verbatim>\<open>/broadcasts?limit=100\<close> is its first page.
\<close>

definition crowded_broadcasts :: "broadcast list" where
  "crowded_broadcasts =
     map (\<lambda>n. sample_broadcast (replicate (Suc n) CHR ''x'') ''a2'' None None None) [0..<100]
     @ [sample_broadcast ''b1'' ''a1'' None None None]"

definition crowded_upstream :: upstream where
  "crowded_upstream =
     sample_upstream\<lparr>broadcasts_endpoint :=
        (\<lambda>apiKey. answer (provider_page 100 crowded_broadcasts))\<rparr>"


definition sample_env :: env where
  "sample_env = \<lparr>CRON_SECRET = Some ''s3cret'', RESEND_API_KEY = Some ''key'',
                  RESEND_AUDIENCE_ID = Some ''a1''\<rparr>"

definition sample_request :: http_request where
  "sample_request = \<lparr>authorization = Some ''Bearer s3cret''\<rparr>"

text \<open>
  A store where nothing was ever written, so that \<^verbatim>\<open>head\<close> throws for every key,
  and no event so far.
\<close>

definition fresh_sys :: sys where
  "fresh_sys = \<lparr>store = (\<lambda>k. HeadThrows), trace = []\<rparr>"

text \<open>
  A store holding an email collection and no cursor, as a run cut off between the two
  writes leaves it.
\<close>

definition stale_sys :: sys where
  "stale_sys =
     \<lparr>store = (\<lambda>k. if k = ''rss_emails''
                     then HeadUrl (EmailsBlob [sample_email ''a'' ''x@y.com'' ''Hi'' None])
                     else HeadThrows),
      trace = []\<rparr>"

section \<open>Basic facts about the effects\<close>

lemma store_call [simp]: "store (call apiKey rq s) = store s"
  by (simp add: call_def)

lemma trace_call [simp]: "trace (call apiKey rq s) = trace s @ [Call apiKey rq]"
  by (simp add: call_def)

lemma store_sleep [simp]: "store (sleep ms s) = store s"
  by (simp add: sleep_def)

lemma trace_sleep [simp]: "trace (sleep ms s) = trace s @ [Sleep ms]"
  by (simp add: sleep_def)

lemma store_put [simp]: "store (put k v s) = (store s)(k := HeadUrl v)"
  by (simp add: put_def)

lemma trace_put [simp]: "trace (put k v s) = trace s @ [Put k v]"
  by (simp add: put_def)

lemma fst_head [simp]: "fst (head k s) = store s k"
  by (simp add: head_def)

lemma store_head [simp]: "store (snd (head k s)) = store s"
  by (simp add: head_def)

lemma trace_head [simp]: "trace (snd (head k s)) = trace s @ [Head k]"
  by (simp add: head_def)

lemma fetchAudiences_eq:
  "fetchAudiences up apiKey s =
     (if ok (audiences_endpoint up apiKey)
      then (Inr (or_empty (data (body (audiences_endpoint up apiKey)))),
            sleep 500 (call apiKey ListAudiences s))
      else (Inl (FailedToFetchAudiences (status (audiences_endpoint up apiKey))),
            call apiKey ListAudiences s))"
  by (simp add: fetchAudiences_def Let_def)

lemma fetchBroadcasts_eq:
  "fetchBroadcasts up apiKey audienceId s =
     (if ok (broadcasts_endpoint up apiKey)
      then (Inr (filter (\<lambda>b. bc_audience_id b = audienceId)
                   (or_empty (data (body (broadcasts_endpoint up apiKey))))),
            sleep 500 (call apiKey ListBroadcasts s))
      else (Inl (FailedToFetchBroadcasts (status (broadcasts_endpoint up apiKey))),
            call apiKey ListBroadcasts s))"
  by (simp add: fetchBroadcasts_def Let_def)

lemma fetchBroadcastDetails_eq:
  "fetchBroadcastDetails up apiKey ident s =
     (if ok (broadcast_endpoint up apiKey ident)
      then Some (body (broadcast_endpoint up apiKey ident)) else None,
      sleep 500 (call apiKey (GetBroadcast ident) s))"
  by (simp add: fetchBroadcastDetails_def Let_def)

lemma fetchEmailDetails_eq:
  "fetchEmailDetails up apiKey ident s =
     (if ok (email_endpoint up apiKey ident)
      then Some (body (email_endpoint up apiKey ident)) else None,
      sleep 500 (call apiKey (GetEmail ident) s))"
  by (simp add: fetchEmailDetails_def Let_def)

section \<open>A run only extends the trace\<close>

lemma prefix_put_audiences:
  "prefix t (trace s) \<Longrightarrow> prefix t (trace (put_audiences as s))"
  by (induction as arbitrary: s) auto

lemma prefix_put_broadcasts:
  "prefix t (trace s) \<Longrightarrow> prefix t (trace (put_broadcasts bs s))"
  by (induction bs arbitrary: s) auto

lemma prefix_put_emails:
  "prefix t (trace s) \<Longrightarrow> prefix t (trace (put_emails es s))"
  by (induction es arbitrary: s) auto

lemma prefix_put_last_email_id:
  "prefix t (trace s) \<Longrightarrow> prefix t (trace (put_last_email_id es s))"
  by (cases es) auto

lemma prefix_fetchAndStoreBroadcastsWithHtml:
  "prefix t (trace s) \<Longrightarrow> prefix t (trace (fetchAndStoreBroadcastsWithHtml up td apiKey bs s))"
  by (induction bs arbitrary: s)
     (auto simp: fetchBroadcastDetails_eq Let_def split: option.splits)

lemma prefix_matchAndStore:
  "prefix t (trace s) \<Longrightarrow> prefix t (trace (matchAndStore up td apiKey bs es s))"
  by (induction bs arbitrary: s)
     (auto simp: fetchBroadcastDetails_eq fetchEmailDetails_eq Let_def split: option.splits)

lemma prefix_fetchEmailsIncrementally_loop:
  "prefix t (trace s) \<Longrightarrow>
   prefix t (trace (snd (fetchEmailsIncrementally_loop n up apiKey lastId acc cur s)))"
  by (induction n arbitrary: s acc cur) (auto simp: Let_def)

lemma store_reads_done [simp]: "store (reads_done s) = store s"
  by (simp add: reads_done_def)

lemma trace_reads_done [simp]:
  "trace (reads_done s) = trace s @ [Head ''rss_emails'', Head ''rss_last_email_id'']"
  by (simp add: reads_done_def)

lemma fetchEmailsIncrementally_eq:
  "fetchEmailsIncrementally n up apiKey s =
    (case fetchEmailsIncrementally_loop n up apiKey (lastEmailId_of (store s ''rss_last_email_id''))
            [] (lastEmailId_of (store s ''rss_last_email_id'')) (reads_done s) of
       (Running, s3) \<Rightarrow> (Running, s3)
     | (Thrown err, s3) \<Rightarrow> (Thrown err, s3)
     | (Returned newEmails, s3) \<Rightarrow>
         (Returned (newEmails, newEmails @ existingEmails_of (store s ''rss_emails'')), s3))"
  by (simp add: fetchEmailsIncrementally_def reads_done_def head_def Let_def)

lemma snd_fetchEmailsIncrementally:
  "snd (fetchEmailsIncrementally n up apiKey s) =
   snd (fetchEmailsIncrementally_loop n up apiKey (lastEmailId_of (store s ''rss_last_email_id''))
            [] (lastEmailId_of (store s ''rss_last_email_id'')) (reads_done s))"
  by (simp add: fetchEmailsIncrementally_eq split: prod.splits outcome.splits)

lemma prefix_fetchEmailsIncrementally:
  "prefix t (trace s) \<Longrightarrow> prefix t (trace (snd (fetchEmailsIncrementally n up apiKey s)))"
  by (simp add: snd_fetchEmailsIncrementally prefix_fetchEmailsIncrementally_loop)

section \<open>The cases of a run\<close>

lemma GET_unauthorized:
  assumes "authorization req \<noteq> Some (''Bearer '' @ interpolate (CRON_SECRET e))"
  shows "GET_current e up td req s = (\<lparr>code = 401, json = ErrorJson ''Unauthorized''\<rparr>, s)"
    and "GET_historical fuel e up td req s =
           (Some \<lparr>code = 401, json = ErrorJson ''Unauthorized''\<rparr>, s)"
  using assms by (simp_all add: GET_current_def GET_historical_def)

lemma GET_unconfigured:
  assumes "authorization req = Some (''Bearer '' @ interpolate (CRON_SECRET e))"
    and "\<not> truthy (RESEND_API_KEY e) \<or> \<not> truthy (RESEND_AUDIENCE_ID e)"
  shows "GET_current e up td req s =
           (\<lparr>code = 500, json = ErrorJson ''Missing RESEND_API_KEY or RESEND_AUDIENCE_ID''\<rparr>, s)"
    and "GET_historical fuel e up td req s =
           (Some \<lparr>code = 500, json = ErrorJson ''Missing RESEND_API_KEY or RESEND_AUDIENCE_ID''\<rparr>, s)"
  using assms by (auto simp add: GET_current_def GET_historical_def)

lemma GET_audiences_failed:
  assumes "authorization req = Some (''Bearer '' @ interpolate (CRON_SECRET e))"
    and "truthy (RESEND_API_KEY e)" and "truthy (RESEND_AUDIENCE_ID e)"
    and "apiKey = narrowed (RESEND_API_KEY e)"
    and "\<not> ok (audiences_endpoint up apiKey)"
  shows "GET_current e up td req s =
           (\<lparr>code = 500, json = ErrorDetails ''Failed to sync data''
               (FailedToFetchAudiences (status (audiences_endpoint up apiKey)))\<rparr>,
            call apiKey ListAudiences s)"
    and "GET_historical fuel e up td req s =
           (Some \<lparr>code = 500, json = ErrorDetails ''Failed to sync data''
               (FailedToFetchAudiences (status (audiences_endpoint up apiKey)))\<rparr>,
            call apiKey ListAudiences s)"
  using assms by (simp_all add: GET_current_def GET_historical_def fetchAudiences_eq Let_def)

lemma GET_broadcasts_failed:
  assumes "authorization req = Some (''Bearer '' @ interpolate (CRON_SECRET e))"
    and "truthy (RESEND_API_KEY e)" and "truthy (RESEND_AUDIENCE_ID e)"
    and "apiKey = narrowed (RESEND_API_KEY e)"
    and "ok (audiences_endpoint up apiKey)"
    and "\<not> ok (broadcasts_endpoint up apiKey)"
  shows "GET_current e up td req s =
           (\<lparr>code = 500, json = ErrorDetails ''Failed to sync data''
               (FailedToFetchBroadcasts (status (broadcasts_endpoint up apiKey)))\<rparr>,
            call apiKey ListBroadcasts (audiences_stored up apiKey s))"
    and "GET_historical fuel e up td req s =
           (Some \<lparr>code = 500, json = ErrorDetails ''Failed to sync data''
               (FailedToFetchBroadcasts (status (broadcasts_endpoint up apiKey)))\<rparr>,
            call apiKey ListBroadcasts (audiences_stored up apiKey s))"
  using assms
  by (simp_all add: GET_current_def GET_historical_def fetchAudiences_eq fetchBroadcasts_eq
        audiences_stored_def audiences_of_def Let_def)

lemma GET_current_lists_ok:
  assumes "authorization req = Some (''Bearer '' @ interpolate (CRON_SECRET e))"
    and "truthy (RESEND_API_KEY e)" and "truthy (RESEND_AUDIENCE_ID e)"
    and "apiKey = narrowed (RESEND_API_KEY e)"
    and "audienceId = narrowed (RESEND_AUDIENCE_ID e)"
    and "ok (audiences_endpoint up apiKey)"
    and "ok (broadcasts_endpoint up apiKey)"
  shows "GET_current e up td req s =
           (\<lparr>code = 200, json = Success (length (audiences_of up apiKey))
                                 (length (broadcasts_of up apiKey audienceId))\<rparr>,
            fetchAndStoreBroadcastsWithHtml up td apiKey (broadcasts_of up apiKey audienceId)
              (lists_stored up apiKey audienceId s))"
  using assms
  by (simp add: GET_current_def fetchAudiences_eq fetchBroadcasts_eq lists_stored_def
        audiences_stored_def audiences_of_def broadcasts_of_def Let_def)

lemma GET_historical_lists_ok:
  assumes "authorization req = Some (''Bearer '' @ interpolate (CRON_SECRET e))"
    and "truthy (RESEND_API_KEY e)" and "truthy (RESEND_AUDIENCE_ID e)"
    and "apiKey = narrowed (RESEND_API_KEY e)"
    and "audienceId = narrowed (RESEND_AUDIENCE_ID e)"
    and "ok (audiences_endpoint up apiKey)"
    and "ok (broadcasts_endpoint up apiKey)"
  shows "GET_historical fuel e up td req s =
           (case fetchEmailsIncrementally fuel up apiKey (lists_stored up apiKey audienceId s) of
              (Running, s7) \<Rightarrow> (None, s7)
            | (Thrown err, s7) \<Rightarrow>
                (Some \<lparr>code = 500, json = ErrorDetails ''Failed to sync data'' err\<rparr>, s7)
            | (Returned (newEmails, allEmails), s7) \<Rightarrow>
                (Some \<lparr>code = 200,
                       json = SuccessEmails (length (audiences_of up apiKey))
                                (length (broadcasts_of up apiKey audienceId))
                                (length newEmails) (length allEmails)\<rparr>,
                 matchAndStore up td apiKey (broadcasts_of up apiKey audienceId) newEmails
                   (put_last_email_id allEmails
                      (put_emails newEmails (put ''rss_emails'' (EmailsBlob allEmails) s7)))))"
  using assms
  by (simp add: GET_historical_def fetchAudiences_eq fetchBroadcasts_eq lists_stored_def
        audiences_stored_def audiences_of_def broadcasts_of_def Let_def
        split: prod.split outcome.split)

lemma prefix_audiences_stored:
  "prefix (trace s @ [Call apiKey ListAudiences]) (trace (audiences_stored up apiKey s))"
  by (simp add: audiences_stored_def prefix_put_audiences)

lemma prefix_lists_stored:
  "prefix (trace s @ [Call apiKey ListAudiences]) (trace (lists_stored up apiKey audienceId s))"
  using prefix_audiences_stored[of s apiKey up]
  by (simp add: lists_stored_def prefix_put_broadcasts)

lemma GET_current_proceeds:
  assumes "authorization req = Some (''Bearer '' @ interpolate (CRON_SECRET e))"
    and "truthy (RESEND_API_KEY e)" and "truthy (RESEND_AUDIENCE_ID e)"
  shows "prefix (trace s @ [Call (narrowed (RESEND_API_KEY e)) ListAudiences])
           (trace (snd (GET_current e up td req s)))"
proof -
  let ?k = "narrowed (RESEND_API_KEY e)"
  consider "\<not> ok (audiences_endpoint up ?k)"
    | "ok (audiences_endpoint up ?k)" "\<not> ok (broadcasts_endpoint up ?k)"
    | "ok (audiences_endpoint up ?k)" "ok (broadcasts_endpoint up ?k)"
    by blast
  then show ?thesis
  proof cases
    case 1
    then show ?thesis using assms by (simp add: GET_audiences_failed(1))
  next
    case 2
    then show ?thesis using assms prefix_audiences_stored[of s ?k up]
      by (simp add: GET_broadcasts_failed(1))
  next
    case 3
    then show ?thesis using assms prefix_lists_stored[of s ?k up]
      by (simp add: GET_current_lists_ok prefix_fetchAndStoreBroadcastsWithHtml)
  qed
qed

lemma GET_historical_proceeds:
  assumes "authorization req = Some (''Bearer '' @ interpolate (CRON_SECRET e))"
    and "truthy (RESEND_API_KEY e)" and "truthy (RESEND_AUDIENCE_ID e)"
  shows "prefix (trace s @ [Call (narrowed (RESEND_API_KEY e)) ListAudiences])
           (trace (snd (GET_historical fuel e up td req s)))"
proof -
  let ?k = "narrowed (RESEND_API_KEY e)"
  let ?a = "narrowed (RESEND_AUDIENCE_ID e)"
  let ?t = "trace s @ [Call ?k ListAudiences]"
  consider "\<not> ok (audiences_endpoint up ?k)"
    | "ok (audiences_endpoint up ?k)" "\<not> ok (broadcasts_endpoint up ?k)"
    | "ok (audiences_endpoint up ?k)" "ok (broadcasts_endpoint up ?k)"
    by blast
  then show ?thesis
  proof cases
    case 1
    then show ?thesis using assms by (simp add: GET_audiences_failed(2))
  next
    case 2
    then show ?thesis using assms prefix_audiences_stored[of s ?k up]
      by (simp add: GET_broadcasts_failed(2))
  next
    case 3
    have "prefix ?t (trace (snd (fetchEmailsIncrementally fuel up ?k (lists_stored up ?k ?a s))))"
      by (rule prefix_fetchEmailsIncrementally) (rule prefix_lists_stored)
    then show ?thesis using assms 3
      by (auto simp add: GET_historical_lists_ok[where apiKey="?k" and audienceId="?a"]
           prefix_matchAndStore prefix_put_last_email_id prefix_put_emails
           split: prod.splits outcome.splits)
  qed
qed

lemma truthy_iff: "truthy x \<longleftrightarrow> (\<exists>h. x = Some h \<and> h \<noteq> [])"
  by (cases x) auto

section \<open>Authorisation of the trigger endpoint\<close>

text \<open>
  C8. A request whose \<^verbatim>\<open>Authorization\<close> header is not the string the route compares it
  with gets status 401 from both cron routes, and the state comes back as it was: the
  trace has no new event (no upstream call, no write) and the store is untouched.
\<close>

theorem C8_unauthorized_no_side_effects:
  assumes "authorization req \<noteq> Some (''Bearer '' @ interpolate (CRON_SECRET e))"
  shows "GET_current e up td req s = (\<lparr>code = 401, json = ErrorJson ''Unauthorized''\<rparr>, s)
       \<and> GET_historical fuel e up td req s =
           (Some \<lparr>code = 401, json = ErrorJson ''Unauthorized''\<rparr>, s)"
  using GET_unauthorized[OF assms] by simp

theorem C8_witness:
  "authorization \<lparr>authorization = Some ''Bearer wrong''\<rparr>
     \<noteq> Some (''Bearer '' @ interpolate (CRON_SECRET sample_env))
   \<and> GET_current sample_env sample_upstream id \<lparr>authorization = Some ''Bearer wrong''\<rparr> fresh_sys
       = (\<lparr>code = 401, json = ErrorJson ''Unauthorized''\<rparr>, fresh_sys)
   \<and> GET_historical 3 sample_env sample_upstream id \<lparr>authorization = Some ''Bearer wrong''\<rparr>
         fresh_sys
       = (Some \<lparr>code = 401, json = ErrorJson ''Unauthorized''\<rparr>, fresh_sys)"
proof -
  have h: "authorization \<lparr>authorization = Some ''Bearer wrong''\<rparr>
             \<noteq> Some (''Bearer '' @ interpolate (CRON_SECRET sample_env))"
    by (simp add: sample_env_def)
  from C8_unauthorized_no_side_effects[OF h] h show ?thesis by simp
qed

text \<open>
  C9. With \<^verbatim>\<open>CRON_SECRET\<close> unset the routes compare the header with the literal
  \<^verbatim>\<open>Bearer undefined\<close>. A request carrying exactly that header is not answered 401 by
  either route, and once the API key and the audience id are configured the run goes on
  to its first upstream call, the audiences list.
\<close>

theorem C9_unset_secret_accepts_bearer_undefined:
  assumes "CRON_SECRET e = None" and "authorization req = Some ''Bearer undefined''"
  shows "code (fst (GET_current e up td req s)) \<noteq> 401
       \<and> (case fst (GET_historical fuel e up td req s) of None \<Rightarrow> True | Some r \<Rightarrow> code r \<noteq> 401)
       \<and> (truthy (RESEND_API_KEY e) \<and> truthy (RESEND_AUDIENCE_ID e) \<longrightarrow>
            prefix (trace s @ [Call (narrowed (RESEND_API_KEY e)) ListAudiences])
              (trace (snd (GET_current e up td req s)))
          \<and> prefix (trace s @ [Call (narrowed (RESEND_API_KEY e)) ListAudiences])
              (trace (snd (GET_historical fuel e up td req s))))"
proof -
  have auth: "authorization req = Some (''Bearer '' @ interpolate (CRON_SECRET e))"
    using assms by simp
  have "code (fst (GET_current e up td req s)) \<noteq> 401"
    using auth
    by (simp add: GET_current_def Let_def fetchAudiences_eq fetchBroadcasts_eq
          split: prod.split sum.split)
  moreover have "case fst (GET_historical fuel e up td req s) of None \<Rightarrow> True
                 | Some r \<Rightarrow> code r \<noteq> 401"
    using auth
    by (simp add: GET_historical_def Let_def fetchAudiences_eq fetchBroadcasts_eq
          split: prod.split sum.split outcome.split)
  ultimately show ?thesis
    using GET_current_proceeds[OF auth] GET_historical_proceeds[OF auth] by simp
qed

theorem C9_witness:
  "CRON_SECRET (sample_env\<lparr>CRON_SECRET := None\<rparr>) = None
   \<and> authorization \<lparr>authorization = Some ''Bearer undefined''\<rparr> = Some ''Bearer undefined''
   \<and> code (fst (GET_current (sample_env\<lparr>CRON_SECRET := None\<rparr>) sample_upstream id
                  \<lparr>authorization = Some ''Bearer undefined''\<rparr> fresh_sys)) \<noteq> 401
   \<and> prefix [Call ''key'' ListAudiences]
        (trace (snd (GET_current (sample_env\<lparr>CRON_SECRET := None\<rparr>) sample_upstream id
                  \<lparr>authorization = Some ''Bearer undefined''\<rparr> fresh_sys)))
   \<and> prefix [Call ''key'' ListAudiences]
        (trace (snd (GET_historical 3 (sample_env\<lparr>CRON_SECRET := None\<rparr>) sample_upstream id
                  \<lparr>authorization = Some ''Bearer undefined''\<rparr> fresh_sys)))"
proof -
  have h1: "CRON_SECRET (sample_env\<lparr>CRON_SECRET := None\<rparr>) = None" by simp
  have h2: "authorization \<lparr>authorization = Some ''Bearer undefined''\<rparr> = Some ''Bearer undefined''"
    by simp
  from C9_unset_secret_accepts_bearer_undefined[OF h1 h2,
         of sample_upstream id fresh_sys 3]
  show ?thesis by (simp add: sample_env_def fresh_sys_def)
qed

section \<open>The broadcast detail endpoint\<close>

lemma GET_broadcast_cases:
  "(store s (''rss_broadcast_'' @ ident @ ''_info'') = HeadThrows \<longrightarrow>
      fst (GET_broadcast ident s) =
        \<lparr>page_status = 500, page_body = ''Failed to fetch broadcast'', content_type = None\<rparr>)
   \<and> (store s (''rss_broadcast_'' @ ident @ ''_info'') = HeadNull \<longrightarrow>
      fst (GET_broadcast ident s) =
        \<lparr>page_status = 404, page_body = ''Broadcast not found'', content_type = None\<rparr>)
   \<and> (\<forall>b. store s (''rss_broadcast_'' @ ident @ ''_info'') = HeadUrl (BroadcastBlob b)
          \<and> \<not> truthy (bc_html b) \<longrightarrow>
      fst (GET_broadcast ident s) =
        \<lparr>page_status = 404, page_body = ''HTML content not available'', content_type = None\<rparr>)
   \<and> (\<forall>b html. store s (''rss_broadcast_'' @ ident @ ''_info'') = HeadUrl (BroadcastBlob b)
          \<and> bc_html b = Some html \<and> html \<noteq> [] \<longrightarrow>
      fst (GET_broadcast ident s) =
        \<lparr>page_status = 200, page_body = html, content_type = Some ''text/html''\<rparr>)
   \<and> (page_status (fst (GET_broadcast ident s)) = 200 \<longrightarrow>
        (\<exists>blob html. store s (''rss_broadcast_'' @ ident @ ''_info'') = HeadUrl blob
           \<and> json_html blob = Some (Some html) \<and> html \<noteq> []
           \<and> fst (GET_broadcast ident s) =
               \<lparr>page_status = 200, page_body = html, content_type = Some ''text/html''\<rparr>))"
  by (auto simp add: GET_broadcast_def head_def truthy_iff split: head_result.splits option.splits)

text \<open>
  With a stored info record the endpoint does what C10 says: 404
  \<^verbatim>\<open>HTML content not available\<close> when the record has no \<^verbatim>\<open>html\<close> field, the stored
  HTML with \<^verbatim>\<open>Content-Type: text/html\<close> when it has one.
\<close>

lemma detail_endpoint_with_record:
  "fst (GET_broadcast ''b1''
          (put ''rss_broadcast_b1_info''
             (BroadcastBlob (sample_broadcast ''b1'' ''a1'' (Some ''Hi'') None None)) fresh_sys)) =
      \<lparr>page_status = 404, page_body = ''HTML content not available'', content_type = None\<rparr>
   \<and> fst (GET_broadcast ''b1''
            (put ''rss_broadcast_b1_info''
               (BroadcastBlob (sample_broadcast ''b1'' ''a1'' (Some ''Hi'') None (Some ''<p>Hi</p>'')))
               fresh_sys)) =
        \<lparr>page_status = 200, page_body = ''<p>Hi</p>'', content_type = Some ''text/html''\<rparr>"
  by (simp add: GET_broadcast_def head_def sample_broadcast_def)

text \<open>
  C10. For an id under which no info record was ever stored the endpoint does not
  answer 404: \<^verbatim>\<open>head\<close> throws, the route's \<^verbatim>\<open>catch\<close> takes over and the answer is
  500 \<^verbatim>\<open>Failed to fetch broadcast\<close>. The 404 \<^verbatim>\<open>Broadcast not found\<close> that the route
  prepares is given only for a \<^verbatim>\<open>head\<close> result without a url.
\<close>

theorem C10_missing_record_answers_500:
  "store fresh_sys (''rss_broadcast_'' @ ''b1'' @ ''_info'') = HeadThrows
   \<and> fst (GET_broadcast ''b1'' fresh_sys) =
        \<lparr>page_status = 500, page_body = ''Failed to fetch broadcast'', content_type = None\<rparr>"
  by (simp add: GET_broadcast_def head_def fresh_sys_def)

section \<open>Traces under concatenation\<close>

lemma calls_append [simp]: "calls (xs @ ys) = calls xs @ calls ys"
  by (induction xs rule: calls.induct) auto

lemma writes_to_append [simp]: "writes_to k (xs @ ys) = writes_to k xs @ writes_to k ys"
  by (induction k xs rule: writes_to.induct) auto

lemma rested_after_append [simp]:
  "rested_after r (xs @ ys) = rested_after (rested_after r xs) ys"
  by (induction r xs rule: rested_after.induct) auto

lemma spaced_append [simp]:
  "spaced r (xs @ ys) = (spaced r xs \<and> spaced (rested_after r xs) ys)"
  by (induction r xs rule: spaced.induct) auto

section \<open>The correlator\<close>

lemma matchingEmail_find:
  "matchingEmail b emails = find (same_subject_and_from b) emails"
proof -
  have "(\<lambda>email. Some (em_subject email) = bc_subject b \<and> Some (em_from email) = bc_from b)
          = same_subject_and_from b"
    by (auto simp add: fun_eq_iff same_subject_and_from_def)
  then show ?thesis by (simp add: matchingEmail_def)
qed

text \<open>
  C3. The email the historical correlator selects for a broadcast is the first one of
  the collection, in its order, whose subject and from both equal the broadcast's;
  none is selected exactly when no email of the collection has both equal. For a
  broadcast whose details carry a subject and a from, this is the email whose details
  \<^verbatim>\<open>matchAndStore\<close> goes on to fetch.
\<close>

theorem C3_correlator_first_exact_match:
  "(matchingEmail bd emails = Some e \<longleftrightarrow>
      (\<exists>i<length emails. emails ! i = e \<and> same_subject_and_from bd e
          \<and> (\<forall>j<i. \<not> same_subject_and_from bd (emails ! j))))
   \<and> (matchingEmail bd emails = None \<longleftrightarrow> (\<forall>x\<in>set emails. \<not> same_subject_and_from bd x))
   \<and> (ok (broadcast_endpoint up apiKey (bc_id b))
        \<and> truthy (bc_subject (body (broadcast_endpoint up apiKey (bc_id b))))
        \<and> truthy (bc_from (body (broadcast_endpoint up apiKey (bc_id b)))) \<longrightarrow>
       calls (trace (matchAndStore up td apiKey [b] emails s)) =
         calls (trace s) @ GetBroadcast (bc_id b) #
           (case matchingEmail (body (broadcast_endpoint up apiKey (bc_id b))) emails of
              None \<Rightarrow> [] | Some x \<Rightarrow> [GetEmail (em_id x)]))"
proof -
  have first: "matchingEmail bd emails = Some e \<longleftrightarrow>
      (\<exists>i<length emails. emails ! i = e \<and> same_subject_and_from bd e
          \<and> (\<forall>j<i. \<not> same_subject_and_from bd (emails ! j)))"
    unfolding matchingEmail_find find_Some_iff by blast
  have none: "matchingEmail bd emails = None \<longleftrightarrow>
      (\<forall>x\<in>set emails. \<not> same_subject_and_from bd x)"
    unfolding matchingEmail_find find_None_iff by blast
  have used: "ok (broadcast_endpoint up apiKey (bc_id b))
        \<and> truthy (bc_subject (body (broadcast_endpoint up apiKey (bc_id b))))
        \<and> truthy (bc_from (body (broadcast_endpoint up apiKey (bc_id b)))) \<longrightarrow>
       calls (trace (matchAndStore up td apiKey [b] emails s)) =
         calls (trace s) @ GetBroadcast (bc_id b) #
           (case matchingEmail (body (broadcast_endpoint up apiKey (bc_id b))) emails of
              None \<Rightarrow> [] | Some x \<Rightarrow> [GetEmail (em_id x)])"
    by (simp add: fetchBroadcastDetails_eq fetchEmailDetails_eq Let_def split: option.split)
  from first none used show ?thesis by blast
qed

theorem C3_witness:
  "matchingEmail (sample_broadcast ''b1'' ''a1'' (Some ''Hi'') (Some ''x@y.com'') None)
     [sample_email ''e0'' ''x@y.com'' ''Other'' None,
      sample_email ''e1'' ''x@y.com'' ''Hi'' None,
      sample_email ''e2'' ''x@y.com'' ''Hi'' None]
     = Some (sample_email ''e1'' ''x@y.com'' ''Hi'' None)
   \<and> (\<exists>i<length [sample_email ''e0'' ''x@y.com'' ''Other'' None,
                     sample_email ''e1'' ''x@y.com'' ''Hi'' None,
                     sample_email ''e2'' ''x@y.com'' ''Hi'' None].
          [sample_email ''e0'' ''x@y.com'' ''Other'' None,
           sample_email ''e1'' ''x@y.com'' ''Hi'' None,
           sample_email ''e2'' ''x@y.com'' ''Hi'' None] ! i
            = sample_email ''e1'' ''x@y.com'' ''Hi'' None
          \<and> same_subject_and_from
                (sample_broadcast ''b1'' ''a1'' (Some ''Hi'') (Some ''x@y.com'') None)
                (sample_email ''e1'' ''x@y.com'' ''Hi'' None)
          \<and> (\<forall>j<i. \<not> same_subject_and_from
                         (sample_broadcast ''b1'' ''a1'' (Some ''Hi'') (Some ''x@y.com'') None)
                         ([sample_email ''e0'' ''x@y.com'' ''Other'' None,
                           sample_email ''e1'' ''x@y.com'' ''Hi'' None,
                           sample_email ''e2'' ''x@y.com'' ''Hi'' None] ! j)))
   \<and> ok (broadcast_endpoint sample_upstream ''key''
            (bc_id (sample_broadcast ''b1'' ''a1'' None None None)))
   \<and> truthy (bc_subject (body (broadcast_endpoint sample_upstream ''key''
            (bc_id (sample_broadcast ''b1'' ''a1'' None None None)))))
   \<and> truthy (bc_from (body (broadcast_endpoint sample_upstream ''key''
            (bc_id (sample_broadcast ''b1'' ''a1'' None None None)))))
   \<and> calls (trace (matchAndStore sample_upstream id ''key''
         [sample_broadcast ''b1'' ''a1'' None None None]
         [sample_email ''e0'' ''x@y.com'' ''Other'' None,
          sample_email ''e1'' ''x@y.com'' ''Hi'' None,
          sample_email ''e2'' ''x@y.com'' ''Hi'' None] fresh_sys)) =
       calls (trace fresh_sys) @
         [GetBroadcast (bc_id (sample_broadcast ''b1'' ''a1'' None None None)),
          GetEmail (em_id (sample_email ''e1'' ''x@y.com'' ''Hi'' None))]"
proof -
  let ?b = "sample_broadcast ''b1'' ''a1'' (Some ''Hi'') (Some ''x@y.com'') None"
  let ?b1 = "sample_broadcast ''b1'' ''a1'' None None None"
  let ?e1 = "sample_email ''e1'' ''x@y.com'' ''Hi'' None"
  let ?es = "[sample_email ''e0'' ''x@y.com'' ''Other'' None,
              sample_email ''e1'' ''x@y.com'' ''Hi'' None,
              sample_email ''e2'' ''x@y.com'' ''Hi'' None]"
  let ?d = "body (broadcast_endpoint sample_upstream ''key'' (bc_id ?b1))"
  have sel: "matchingEmail ?b ?es = Some ?e1"
    by (simp add: matchingEmail_def sample_broadcast_def sample_email_def)
  have detail: "ok (broadcast_endpoint sample_upstream ''key'' (bc_id ?b1))
                \<and> truthy (bc_subject ?d) \<and> truthy (bc_from ?d)"
    by (simp add: sample_upstream_def sample_broadcast_def answer_def)
  have sel': "matchingEmail ?d ?es = Some ?e1"
    by (simp add: matchingEmail_def sample_upstream_def sample_broadcast_def sample_email_def
          answer_def)
  note inst = C3_correlator_first_exact_match[of ?b ?es ?e1 sample_upstream "''key''" ?b1 id
                fresh_sys]
  from inst sel have first:
    "\<exists>i<length ?es. ?es ! i = ?e1 \<and> same_subject_and_from ?b ?e1
        \<and> (\<forall>j<i. \<not> same_subject_and_from ?b (?es ! j))"
    by blast
  from inst detail have
    "calls (trace (matchAndStore sample_upstream id ''key'' [?b1] ?es fresh_sys)) =
       calls (trace fresh_sys) @ GetBroadcast (bc_id ?b1) #
         (case matchingEmail ?d ?es of None \<Rightarrow> [] | Some x \<Rightarrow> [GetEmail (em_id x)])"
    by blast
  then have used:
    "calls (trace (matchAndStore sample_upstream id ''key'' [?b1] ?es fresh_sys)) =
       calls (trace fresh_sys) @ [GetBroadcast (bc_id ?b1), GetEmail (em_id ?e1)]"
    unfolding sel' by (simp only: option.case)
  from sel first detail used show ?thesis by blast
qed

section \<open>Which keys a stage writes\<close>

lemma store_put_audiences:
  "(\<And>a. a \<in> set as \<Longrightarrow> k \<noteq> ''rss_audience_'' @ aud_id a) \<Longrightarrow>
   store (put_audiences as s) k = store s k"
  by (induction as arbitrary: s) auto

lemma store_put_broadcasts:
  "(\<And>b. b \<in> set bs \<Longrightarrow> k \<noteq> ''rss_broadcast_'' @ bc_id b) \<Longrightarrow>
   store (put_broadcasts bs s) k = store s k"
  by (induction bs arbitrary: s) auto

lemma store_put_emails:
  "(\<And>x. x \<in> set es \<Longrightarrow> k \<noteq> ''rss_email_'' @ em_id x) \<Longrightarrow>
   store (put_emails es s) k = store s k"
  by (induction es arbitrary: s) auto

lemma store_put_last_email_id:
  "k \<noteq> ''rss_last_email_id'' \<Longrightarrow> store (put_last_email_id es s) k = store s k"
  by (cases es) auto

lemma store_fetchAndStoreBroadcastsWithHtml:
  "(\<And>b. b \<in> set bs \<Longrightarrow> k \<noteq> ''rss_broadcast_'' @ bc_id b @ ''_info''
                        \<and> k \<noteq> ''rss_broadcast_'' @ bc_id b @ ''_info_md'') \<Longrightarrow>
   store (fetchAndStoreBroadcastsWithHtml up td apiKey bs s) k = store s k"
  by (induction bs arbitrary: s)
     (auto simp: fetchBroadcastDetails_eq Let_def split: option.splits)

lemma store_matchAndStore:
  "(\<And>b. b \<in> set bs \<Longrightarrow> k \<noteq> ''rss_broadcast_'' @ bc_id b @ ''_info''
                        \<and> k \<noteq> ''rss_broadcast_'' @ bc_id b @ ''_info_md'') \<Longrightarrow>
   store (matchAndStore up td apiKey bs es s) k = store s k"
  by (induction bs arbitrary: s)
     (auto simp: fetchBroadcastDetails_eq fetchEmailDetails_eq Let_def split: option.splits)

lemma store_fetchEmailsIncrementally_loop [simp]:
  "store (snd (fetchEmailsIncrementally_loop n up apiKey lastId acc cur s)) = store s"
  by (induction n arbitrary: s acc cur) (auto simp: Let_def)

lemma store_fetchEmailsIncrementally [simp]:
  "store (snd (fetchEmailsIncrementally n up apiKey s)) = store s"
  by (simp add: snd_fetchEmailsIncrementally)

lemma fst_fetchEmailsIncrementally_loop_state:
  "fst (fetchEmailsIncrementally_loop n up apiKey lastId acc cur s) =
   fst (fetchEmailsIncrementally_loop n up apiKey lastId acc cur s')"
  by (induction n arbitrary: s s' acc cur) (auto simp: Let_def)

lemma fst_fetchEmailsIncrementally:
  "fst (fetchEmailsIncrementally n up apiKey s) =
    (case fst (fetchEmailsIncrementally_loop n up apiKey
                 (lastEmailId_of (store s ''rss_last_email_id'')) []
                 (lastEmailId_of (store s ''rss_last_email_id'')) s) of
       Running \<Rightarrow> Running
     | Thrown err \<Rightarrow> Thrown err
     | Returned newEmails \<Rightarrow>
         Returned (newEmails, newEmails @ existingEmails_of (store s ''rss_emails'')))"
proof -
  let ?l = "lastEmailId_of (store s ''rss_last_email_id'')"
  obtain r s3 where run: "fetchEmailsIncrementally_loop n up apiKey ?l [] ?l (reads_done s) = (r, s3)"
    by (cases "fetchEmailsIncrementally_loop n up apiKey ?l [] ?l (reads_done s)")
  have "fst (fetchEmailsIncrementally_loop n up apiKey ?l [] ?l s) = r"
    using fst_fetchEmailsIncrementally_loop_state[of n up apiKey ?l "[]" ?l s "reads_done s"] run
    by simp
  then show ?thesis
    by (cases r) (simp_all add: fetchEmailsIncrementally_eq run)
qed

lemma fst_fetchEmailsIncrementally_cong:
  assumes "store s ''rss_emails'' = store s' ''rss_emails''"
    and "store s ''rss_last_email_id'' = store s' ''rss_last_email_id''"
  shows "fst (fetchEmailsIncrementally n up apiKey s) = fst (fetchEmailsIncrementally n up apiKey s')"
proof -
  let ?l = "lastEmailId_of (store s' ''rss_last_email_id'')"
  have "fst (fetchEmailsIncrementally_loop n up apiKey ?l [] ?l s) =
        fst (fetchEmailsIncrementally_loop n up apiKey ?l [] ?l s')"
    by (rule fst_fetchEmailsIncrementally_loop_state)
  then show ?thesis using assms by (simp add: fst_fetchEmailsIncrementally split: outcome.split)
qed

lemma store_audiences_stored:
  "(\<And>x. k \<noteq> ''rss_audience_'' @ x) \<Longrightarrow> k \<noteq> ''rss_audiences'' \<Longrightarrow>
   store (audiences_stored up apiKey s) k = store s k"
  by (simp add: audiences_stored_def store_put_audiences)

lemma store_lists_stored:
  "(\<And>x. k \<noteq> ''rss_audience_'' @ x) \<Longrightarrow> k \<noteq> ''rss_audiences'' \<Longrightarrow>
   (\<And>x. k \<noteq> ''rss_broadcast_'' @ x) \<Longrightarrow> k \<noteq> ''rss_broadcasts'' \<Longrightarrow>
   store (lists_stored up apiKey audienceId s) k = store s k"
  by (simp add: lists_stored_def store_put_broadcasts store_audiences_stored)

lemma store_lists_stored_broadcasts:
  "store (lists_stored up apiKey audienceId s) ''rss_broadcasts'' =
     HeadUrl (BroadcastsBlob (broadcasts_of up apiKey audienceId))"
  by (simp add: lists_stored_def store_put_broadcasts)

section \<open>The persisted broadcast collection\<close>

text \<open>
  Once both list fetches of a run have succeeded, the value stored under
  \<^verbatim>\<open>rss_broadcasts\<close> at the end of the run is the list the provider answered with
  to the one request with \<^verbatim>\<open>limit=100\<close>, filtered to the broadcasts whose
  \<^verbatim>\<open>audience_id\<close> equals the configured audience id, in the provider's order,
  whatever \<^verbatim>\<open>has_more\<close> says. This holds for the current route and, at every bound
  on the pages of emails, for the historical one.
\<close>

lemma persisted_broadcasts_are_the_filtered_page:
  assumes "authorization req = Some (''Bearer '' @ interpolate (CRON_SECRET e))"
    and "truthy (RESEND_API_KEY e)" and "truthy (RESEND_AUDIENCE_ID e)"
    and "ok (audiences_endpoint up (narrowed (RESEND_API_KEY e)))"
    and "ok (broadcasts_endpoint up (narrowed (RESEND_API_KEY e)))"
  shows "store (snd (GET_current e up td req s)) ''rss_broadcasts'' =
           HeadUrl (BroadcastsBlob
             (filter (\<lambda>b. bc_audience_id b = narrowed (RESEND_AUDIENCE_ID e))
                (or_empty (data (body (broadcasts_endpoint up (narrowed (RESEND_API_KEY e))))))))
       \<and> store (snd (GET_historical fuel e up td req s)) ''rss_broadcasts'' =
           HeadUrl (BroadcastsBlob
             (filter (\<lambda>b. bc_audience_id b = narrowed (RESEND_AUDIENCE_ID e))
                (or_empty (data (body (broadcasts_endpoint up (narrowed (RESEND_API_KEY e))))))))"
proof -
  let ?k = "narrowed (RESEND_API_KEY e)"
  let ?a = "narrowed (RESEND_AUDIENCE_ID e)"
  have cur: "store (snd (GET_current e up td req s)) ''rss_broadcasts'' =
               HeadUrl (BroadcastsBlob (broadcasts_of up ?k ?a))"
    using assms
    by (simp add: GET_current_lists_ok[where apiKey="?k" and audienceId="?a"]
          store_fetchAndStoreBroadcastsWithHtml store_lists_stored_broadcasts)
  obtain r s7 where run:
    "fetchEmailsIncrementally fuel up ?k (lists_stored up ?k ?a s) = (r, s7)"
    by (cases "fetchEmailsIncrementally fuel up ?k (lists_stored up ?k ?a s)")
  have s7: "store s7 = store (lists_stored up ?k ?a s)"
    using store_fetchEmailsIncrementally[of fuel up ?k "lists_stored up ?k ?a s"] run by simp
  have hist: "store (snd (GET_historical fuel e up td req s)) ''rss_broadcasts'' =
               HeadUrl (BroadcastsBlob (broadcasts_of up ?k ?a))"
    using assms
    by (cases r)
       (auto simp add: GET_historical_lists_ok[where apiKey="?k" and audienceId="?a"] run s7
          store_matchAndStore store_put_last_email_id store_put_emails
          store_lists_stored_broadcasts)
  from cur hist show ?thesis by (simp add: broadcasts_of_def)
qed

lemma sample_run:
  shows sample_authorized:
      "authorization sample_request = Some (''Bearer '' @ interpolate (CRON_SECRET sample_env))"
    and sample_key: "truthy (RESEND_API_KEY sample_env)"
    and sample_audience: "truthy (RESEND_AUDIENCE_ID sample_env)"
    and sample_key_eq: "narrowed (RESEND_API_KEY sample_env) = ''key''"
    and sample_audience_eq: "narrowed (RESEND_AUDIENCE_ID sample_env) = ''a1''"
  by (simp_all add: sample_request_def sample_env_def)

lemma crowded_page:
  "ok (broadcasts_endpoint crowded_upstream apiKey)"
  "has_more (body (broadcasts_endpoint crowded_upstream apiKey)) = Some True"
  "length (or_empty (data (body (broadcasts_endpoint crowded_upstream apiKey)))) = 100"
  "filter (\<lambda>b. bc_audience_id b = ''a1'')
     (or_empty (data (body (broadcasts_endpoint crowded_upstream apiKey)))) = []"
  "ok (audiences_endpoint crowded_upstream apiKey)"
  "audiences_endpoint crowded_upstream apiKey = answer (listing_of [sample_audience] False)"
  "emails_endpoint crowded_upstream = emails_endpoint sample_upstream"
  by (simp_all add: crowded_upstream_def crowded_broadcasts_def provider_page_def answer_def
        sample_upstream_def sample_broadcast_def filter_empty_conv listing_of_def)

lemma crowded_full_set:
  "length crowded_broadcasts = 101"
  "filter (\<lambda>b. bc_audience_id b = ''a1'') crowded_broadcasts =
     [sample_broadcast ''b1'' ''a1'' None None None]"
  by (simp_all add: crowded_broadcasts_def sample_broadcast_def filter_empty_conv)

text \<open>
  C4. The persisted collection is the filter of the first page of the provider's
  broadcasts, not of its full set: the route sends one request with \<^verbatim>\<open>limit=100\<close> and
  does not follow \<^verbatim>\<open>has_more\<close>, as the emails fetch of the same file does. When the
  provider holds the broadcasts \<open>all\<close> and answers with its first page, both routes
  persist the broadcasts of the configured audience among the first hundred, which is
  the filter of the full set exactly when no broadcast of that audience lies beyond them.
\<close>

theorem C4_broadcasts_beyond_the_first_page_are_lost:
  assumes "authorization req = Some (''Bearer '' @ interpolate (CRON_SECRET e))"
    and "truthy (RESEND_API_KEY e)" and "truthy (RESEND_AUDIENCE_ID e)"
    and "ok (audiences_endpoint up (narrowed (RESEND_API_KEY e)))"
    and "ok (broadcasts_endpoint up (narrowed (RESEND_API_KEY e)))"
    and "body (broadcasts_endpoint up (narrowed (RESEND_API_KEY e))) = provider_page 100 all"
  shows "store (snd (GET_current e up td req s)) ''rss_broadcasts'' =
           HeadUrl (BroadcastsBlob
             (filter (\<lambda>b. bc_audience_id b = narrowed (RESEND_AUDIENCE_ID e)) (take 100 all)))
       \<and> store (snd (GET_historical fuel e up td req s)) ''rss_broadcasts'' =
           HeadUrl (BroadcastsBlob
             (filter (\<lambda>b. bc_audience_id b = narrowed (RESEND_AUDIENCE_ID e)) (take 100 all)))
       \<and> (store (snd (GET_current e up td req s)) ''rss_broadcasts'' =
            HeadUrl (BroadcastsBlob
              (filter (\<lambda>b. bc_audience_id b = narrowed (RESEND_AUDIENCE_ID e)) all)))
         = (filter (\<lambda>b. bc_audience_id b = narrowed (RESEND_AUDIENCE_ID e)) (drop 100 all) = [])
       \<and> (store (snd (GET_historical fuel e up td req s)) ''rss_broadcasts'' =
            HeadUrl (BroadcastsBlob
              (filter (\<lambda>b. bc_audience_id b = narrowed (RESEND_AUDIENCE_ID e)) all)))
         = (filter (\<lambda>b. bc_audience_id b = narrowed (RESEND_AUDIENCE_ID e)) (drop 100 all) = [])"
proof -
  let ?p = "\<lambda>b. bc_audience_id b = narrowed (RESEND_AUDIENCE_ID e)"
  have page: "or_empty (data (body (broadcasts_endpoint up (narrowed (RESEND_API_KEY e))))) =
                take 100 all"
    by (simp add: assms(6) provider_page_def)
  note stored = persisted_broadcasts_are_the_filtered_page[OF assms(1-5), of td s fuel,
      unfolded page]
  have "filter ?p all = filter ?p (take 100 all) @ filter ?p (drop 100 all)"
    by (simp flip: filter_append)
  then have full: "(filter ?p (take 100 all) = filter ?p all) = (filter ?p (drop 100 all) = [])"
    by simp
  from stored full show ?thesis by simp
qed

text \<open>
  The input on which the collection falls short: a provider holding 101 broadcasts,
  the last of them the only one of the configured audience. Both routes send the one
  broadcasts request, are told that there is more, and persist an empty collection.
\<close>

theorem C4_witness:
  "authorization sample_request = Some (''Bearer '' @ interpolate (CRON_SECRET sample_env))
   \<and> truthy (RESEND_API_KEY sample_env) \<and> truthy (RESEND_AUDIENCE_ID sample_env)
   \<and> ok (audiences_endpoint crowded_upstream (narrowed (RESEND_API_KEY sample_env)))
   \<and> ok (broadcasts_endpoint crowded_upstream (narrowed (RESEND_API_KEY sample_env)))
   \<and> body (broadcasts_endpoint crowded_upstream (narrowed (RESEND_API_KEY sample_env))) =
       provider_page 100 crowded_broadcasts
   \<and> length crowded_broadcasts = 101
   \<and> filter (\<lambda>b. bc_audience_id b = ''a1'') crowded_broadcasts =
       [sample_broadcast ''b1'' ''a1'' None None None]
   \<and> has_more (body (broadcasts_endpoint crowded_upstream ''key'')) = Some True
   \<and> calls (trace (snd (GET_current sample_env crowded_upstream id sample_request fresh_sys))) =
       [ListAudiences, ListBroadcasts]
   \<and> calls (trace (snd (GET_historical 3 sample_env crowded_upstream id sample_request
                           fresh_sys))) =
       [ListAudiences, ListBroadcasts, ListEmails None, ListEmails (Some ''e2'')]
   \<and> store (snd (GET_current sample_env crowded_upstream id sample_request fresh_sys))
        ''rss_broadcasts'' = HeadUrl (BroadcastsBlob [])
   \<and> store (snd (GET_historical 3 sample_env crowded_upstream id sample_request fresh_sys))
        ''rss_broadcasts'' = HeadUrl (BroadcastsBlob [])"
proof -
  have h4: "ok (audiences_endpoint crowded_upstream (narrowed (RESEND_API_KEY sample_env)))"
    and h5: "ok (broadcasts_endpoint crowded_upstream (narrowed (RESEND_API_KEY sample_env)))"
    by (simp_all add: crowded_page answer_def)
  have h6: "body (broadcasts_endpoint crowded_upstream (narrowed (RESEND_API_KEY sample_env))) =
              provider_page 100 crowded_broadcasts"
    by (simp add: crowded_upstream_def answer_def)
  have first_page:
    "filter (\<lambda>b. bc_audience_id b = ''a1'') (take 100 crowded_broadcasts) = []"
    by (simp add: crowded_broadcasts_def sample_broadcast_def filter_empty_conv)
  have none: "broadcasts_of crowded_upstream ''key'' ''a1'' = []"
    by (simp add: broadcasts_of_def crowded_page)
  have stored:
    "store (snd (GET_current sample_env crowded_upstream id sample_request fresh_sys))
        ''rss_broadcasts'' = HeadUrl (BroadcastsBlob [])"
    "store (snd (GET_historical 3 sample_env crowded_upstream id sample_request fresh_sys))
        ''rss_broadcasts'' = HeadUrl (BroadcastsBlob [])"
    using C4_broadcasts_beyond_the_first_page_are_lost[OF sample_authorized sample_key
        sample_audience h4 h5 h6, of id fresh_sys 3]
    by (simp_all add: sample_audience_eq first_page)
  have current:
    "calls (trace (snd (GET_current sample_env crowded_upstream id sample_request fresh_sys))) =
       [ListAudiences, ListBroadcasts]"
    by (simp add: GET_current_lists_ok[OF sample_authorized sample_key sample_audience
          sample_key_eq[symmetric] sample_audience_eq[symmetric] h4[unfolded sample_key_eq]
          h5[unfolded sample_key_eq]] none lists_stored_def audiences_stored_def audiences_of_def
          crowded_page answer_def listing_of_def fresh_sys_def sample_audience_def)
  have historical:
    "calls (trace (snd (GET_historical 3 sample_env crowded_upstream id sample_request
                           fresh_sys))) =
       [ListAudiences, ListBroadcasts, ListEmails None, ListEmails (Some ''e2'')]"
    by (simp add: GET_historical_lists_ok[OF sample_authorized sample_key sample_audience
          sample_key_eq[symmetric] sample_audience_eq[symmetric] h4[unfolded sample_key_eq]
          h5[unfolded sample_key_eq]] none lists_stored_def audiences_stored_def audiences_of_def
          crowded_page answer_def listing_of_def fresh_sys_def sample_audience_def
          fetchEmailsIncrementally_eq reads_done_def head_def sample_upstream_def sample_email_def
          eval_nat_numeral Let_def put_def)
  from sample_authorized sample_key sample_audience h4 h5 h6 crowded_full_set crowded_page(2)
    current historical stored
  show ?thesis by simp
qed

section \<open>The merged email collection and the cursor\<close>

lemma store_emails_written:
  assumes k: "k = ''rss_emails'' \<or> k = ''rss_last_email_id''"
  shows "store (matchAndStore up td apiKey bs N
                  (put_last_email_id A (put_emails N (put ''rss_emails'' (EmailsBlob A) s)))) k =
         store (put_last_email_id A (put ''rss_emails'' (EmailsBlob A) s)) k"
proof -
  have "store (matchAndStore up td apiKey bs N
                  (put_last_email_id A (put_emails N (put ''rss_emails'' (EmailsBlob A) s)))) k =
        store (put_last_email_id A (put_emails N (put ''rss_emails'' (EmailsBlob A) s))) k"
    using k by (intro store_matchAndStore) auto
  also have "\<dots> = store (put_last_email_id A (put ''rss_emails'' (EmailsBlob A) s)) k"
    using k by (cases A) (auto simp add: store_put_emails)
  finally show ?thesis .
qed

lemma historical_emails_persisted:
  assumes "authorization req = Some (''Bearer '' @ interpolate (CRON_SECRET e))"
    and "truthy (RESEND_API_KEY e)" and "truthy (RESEND_AUDIENCE_ID e)"
    and "ok (audiences_endpoint up (narrowed (RESEND_API_KEY e)))"
    and "ok (broadcasts_endpoint up (narrowed (RESEND_API_KEY e)))"
    and "fst (fetchEmailsIncrementally fuel up (narrowed (RESEND_API_KEY e)) s) = Returned (N, A)"
  shows "A = N @ existingEmails_of (store s ''rss_emails'')
       \<and> store (snd (GET_historical fuel e up td req s)) ''rss_emails'' =
           HeadUrl (EmailsBlob (N @ existingEmails_of (store s ''rss_emails'')))
       \<and> store (snd (GET_historical fuel e up td req s)) ''rss_last_email_id'' =
           (case N @ existingEmails_of (store s ''rss_emails'') of
              [] \<Rightarrow> store s ''rss_last_email_id''
            | x # xs \<Rightarrow> HeadUrl (TextBlob (em_id x)))"
proof -
  let ?k = "narrowed (RESEND_API_KEY e)"
  let ?a = "narrowed (RESEND_AUDIENCE_ID e)"
  let ?s6 = "lists_stored up ?k ?a s"
  have merged: "A = N @ existingEmails_of (store s ''rss_emails'')"
    using assms(6) by (simp add: fst_fetchEmailsIncrementally split: outcome.splits)
  have same: "fst (fetchEmailsIncrementally fuel up ?k ?s6) = Returned (N, A)"
    using assms(6) fst_fetchEmailsIncrementally_cong[of ?s6 s fuel up ?k]
    by (simp add: store_lists_stored)
  obtain s7 where run: "fetchEmailsIncrementally fuel up ?k ?s6 = (Returned (N, A), s7)"
    using same by (cases "fetchEmailsIncrementally fuel up ?k ?s6") simp
  have s7: "store s7 = store ?s6"
    using store_fetchEmailsIncrementally[of fuel up ?k ?s6] run by simp
  have final: "snd (GET_historical fuel e up td req s) =
      matchAndStore up td ?k (broadcasts_of up ?k ?a) N
        (put_last_email_id A (put_emails N (put ''rss_emails'' (EmailsBlob A) s7)))"
    using assms(1-5) by (simp add: GET_historical_lists_ok[where apiKey="?k" and audienceId="?a"] run)
  have emails: "store (snd (GET_historical fuel e up td req s)) ''rss_emails'' =
                  HeadUrl (EmailsBlob A)"
    by (simp add: final store_emails_written store_put_last_email_id)
  have "store (snd (GET_historical fuel e up td req s)) ''rss_last_email_id'' =
          store (put_last_email_id A (put ''rss_emails'' (EmailsBlob A) s7)) ''rss_last_email_id''"
    by (simp add: final store_emails_written)
  also have "\<dots> = (case A of [] \<Rightarrow> store s ''rss_last_email_id''
                   | x # xs \<Rightarrow> HeadUrl (TextBlob (em_id x)))"
    by (cases A) (simp_all add: s7 store_lists_stored)
  finally have cursor: "store (snd (GET_historical fuel e up td req s)) ''rss_last_email_id'' =
                  (case A of [] \<Rightarrow> store s ''rss_last_email_id''
                   | x # xs \<Rightarrow> HeadUrl (TextBlob (em_id x)))" .
  from merged emails cursor show ?thesis by simp
qed

text \<open>
  C1, as the code has it. Let \<open>E\<close> be the stored email collection and \<open>N\<close> the
  emails the run fetches. A run that gets that far persists \<open>N @ E\<close> under
  \<^verbatim>\<open>rss_emails\<close>, both parts in their order. The cursor key is overwritten with the id
  of the first email of \<open>N @ E\<close> whenever that list is non-empty: \<open>N[0].id\<close> when
  \<open>N\<close> is non-empty, \<open>E[0].id\<close> when \<open>N\<close> is empty and \<open>E\<close> is not. It is left
  as it was only when both are empty.
\<close>

theorem C1_merge_order_and_cursor:
  assumes "authorization req = Some (''Bearer '' @ interpolate (CRON_SECRET e))"
    and "truthy (RESEND_API_KEY e)" and "truthy (RESEND_AUDIENCE_ID e)"
    and "ok (audiences_endpoint up (narrowed (RESEND_API_KEY e)))"
    and "ok (broadcasts_endpoint up (narrowed (RESEND_API_KEY e)))"
    and "fst (fetchEmailsIncrementally fuel up (narrowed (RESEND_API_KEY e)) s) = Returned (N, A)"
  shows "A = N @ existingEmails_of (store s ''rss_emails'')
       \<and> store (snd (GET_historical fuel e up td req s)) ''rss_emails'' =
           HeadUrl (EmailsBlob (N @ existingEmails_of (store s ''rss_emails'')))
       \<and> store (snd (GET_historical fuel e up td req s)) ''rss_last_email_id'' =
           (case N @ existingEmails_of (store s ''rss_emails'') of
              [] \<Rightarrow> store s ''rss_last_email_id''
            | x # xs \<Rightarrow> HeadUrl (TextBlob (em_id x)))"
  using historical_emails_persisted[OF assms] .

theorem C1_witness:
  "authorization sample_request = Some (''Bearer '' @ interpolate (CRON_SECRET sample_env))
   \<and> truthy (RESEND_API_KEY sample_env) \<and> truthy (RESEND_AUDIENCE_ID sample_env)
   \<and> ok (audiences_endpoint sample_upstream (narrowed (RESEND_API_KEY sample_env)))
   \<and> ok (broadcasts_endpoint sample_upstream (narrowed (RESEND_API_KEY sample_env)))
   \<and> fst (fetchEmailsIncrementally 3 sample_upstream (narrowed (RESEND_API_KEY sample_env)) stale_sys)
       = Returned
          ([sample_email ''e3'' ''x@y.com'' ''Hi'' None, sample_email ''e2'' ''x@y.com'' ''Hi'' None,
            sample_email ''e1'' ''x@y.com'' ''Old'' None],
           [sample_email ''e3'' ''x@y.com'' ''Hi'' None, sample_email ''e2'' ''x@y.com'' ''Hi'' None,
            sample_email ''e1'' ''x@y.com'' ''Old'' None, sample_email ''a'' ''x@y.com'' ''Hi'' None])
   \<and> store (snd (GET_historical 3 sample_env sample_upstream id sample_request stale_sys))
        ''rss_emails'' =
       HeadUrl (EmailsBlob
          [sample_email ''e3'' ''x@y.com'' ''Hi'' None, sample_email ''e2'' ''x@y.com'' ''Hi'' None,
           sample_email ''e1'' ''x@y.com'' ''Old'' None, sample_email ''a'' ''x@y.com'' ''Hi'' None])
   \<and> store (snd (GET_historical 3 sample_env sample_upstream id sample_request stale_sys))
        ''rss_last_email_id'' = HeadUrl (TextBlob ''e3'')"
proof -
  have h1: "authorization sample_request = Some (''Bearer '' @ interpolate (CRON_SECRET sample_env))"
    by (simp add: sample_request_def sample_env_def)
  have h2: "truthy (RESEND_API_KEY sample_env)" and h3: "truthy (RESEND_AUDIENCE_ID sample_env)"
    by (simp_all add: sample_env_def)
  have h4: "ok (audiences_endpoint sample_upstream (narrowed (RESEND_API_KEY sample_env)))"
    and h5: "ok (broadcasts_endpoint sample_upstream (narrowed (RESEND_API_KEY sample_env)))"
    by (simp_all add: sample_upstream_def answer_def)
  have h6: "fst (fetchEmailsIncrementally 3 sample_upstream (narrowed (RESEND_API_KEY sample_env))
                   stale_sys)
       = Returned
          ([sample_email ''e3'' ''x@y.com'' ''Hi'' None, sample_email ''e2'' ''x@y.com'' ''Hi'' None,
            sample_email ''e1'' ''x@y.com'' ''Old'' None],
           [sample_email ''e3'' ''x@y.com'' ''Hi'' None, sample_email ''e2'' ''x@y.com'' ''Hi'' None,
            sample_email ''e1'' ''x@y.com'' ''Old'' None, sample_email ''a'' ''x@y.com'' ''Hi'' None])"
    by (simp add: fst_fetchEmailsIncrementally stale_sys_def sample_upstream_def answer_def
          listing_of_def eval_nat_numeral Let_def sample_email_def sample_env_def)
  have E: "existingEmails_of (store stale_sys ''rss_emails'') =
             [sample_email ''a'' ''x@y.com'' ''Hi'' None]"
    by (simp add: stale_sys_def)
  from C1_merge_order_and_cursor[OF h1 h2 h3 h4 h5 h6, of id]
  have "store (snd (GET_historical 3 sample_env sample_upstream id sample_request stale_sys))
        ''rss_emails'' =
       HeadUrl (EmailsBlob
          [sample_email ''e3'' ''x@y.com'' ''Hi'' None, sample_email ''e2'' ''x@y.com'' ''Hi'' None,
           sample_email ''e1'' ''x@y.com'' ''Old'' None, sample_email ''a'' ''x@y.com'' ''Hi'' None])
   \<and> store (snd (GET_historical 3 sample_env sample_upstream id sample_request stale_sys))
        ''rss_last_email_id'' = HeadUrl (TextBlob ''e3'')"
    by (simp add: E sample_email_def)
  with h1 h2 h3 h4 h5 h6 show ?thesis by blast
qed

text \<open>
  The claim as stated fails where the store holds emails but no cursor and the provider
  lists no email: \<open>N\<close> is empty, yet the run writes the cursor key.
\<close>

theorem C1_counterexample:
  "fst (fetchEmailsIncrementally 1 quiet_upstream ''key'' stale_sys) =
     Returned ([], [sample_email ''a'' ''x@y.com'' ''Hi'' None])
   \<and> store stale_sys ''rss_last_email_id'' = HeadThrows
   \<and> store (snd (GET_historical 1 sample_env quiet_upstream id sample_request stale_sys))
        ''rss_last_email_id'' = HeadUrl (TextBlob ''a'')"
proof -
  have h1: "authorization sample_request = Some (''Bearer '' @ interpolate (CRON_SECRET sample_env))"
    by (simp add: sample_request_def sample_env_def)
  have h2: "truthy (RESEND_API_KEY sample_env)" and h3: "truthy (RESEND_AUDIENCE_ID sample_env)"
    by (simp_all add: sample_env_def)
  have h4: "ok (audiences_endpoint quiet_upstream (narrowed (RESEND_API_KEY sample_env)))"
    and h5: "ok (broadcasts_endpoint quiet_upstream (narrowed (RESEND_API_KEY sample_env)))"
    by (simp_all add: quiet_upstream_def sample_upstream_def answer_def)
  have h6: "fst (fetchEmailsIncrementally 1 quiet_upstream ''key'' stale_sys) =
     Returned ([], [sample_email ''a'' ''x@y.com'' ''Hi'' None])"
    by (simp add: fst_fetchEmailsIncrementally stale_sys_def quiet_upstream_def
          sample_upstream_def answer_def listing_of_def Let_def)
  have h6': "fst (fetchEmailsIncrementally 1 quiet_upstream (narrowed (RESEND_API_KEY sample_env))
                    stale_sys) =
     Returned ([], [sample_email ''a'' ''x@y.com'' ''Hi'' None])"
    using h6 by (simp add: sample_env_def)
  have "store (snd (GET_historical 1 sample_env quiet_upstream id sample_request stale_sys))
        ''rss_last_email_id'' = HeadUrl (TextBlob ''a'')"
    using historical_emails_persisted[OF h1 h2 h3 h4 h5 h6', of id]
    by (simp add: stale_sys_def sample_email_def)
  then show ?thesis using h6 by (simp add: stale_sys_def)
qed

section \<open>Enrichment of a broadcast whose detail call fails\<close>

lemma info_neq_info_md [simp]:
  "x @ ''_info'' \<noteq> y @ ''_info_md''" "x @ ''_info_md'' \<noteq> y @ ''_info''"
proof -
  have "last (x @ ''_info'') \<noteq> last (y @ ''_info_md'')" by simp
  then show "x @ ''_info'' \<noteq> y @ ''_info_md''" by metis
  have "last (x @ ''_info_md'') \<noteq> last (y @ ''_info'')" by simp
  then show "x @ ''_info_md'' \<noteq> y @ ''_info''" by metis
qed

lemma writes_fetchAndStoreBroadcastsWithHtml:
  assumes "\<not> ok (broadcast_endpoint up apiKey ident)"
    and "k = ''rss_broadcast_'' @ ident @ ''_info'' \<or> k = ''rss_broadcast_'' @ ident @ ''_info_md''"
  shows "writes_to k (trace (fetchAndStoreBroadcastsWithHtml up td apiKey bs s)) =
         writes_to k (trace s)"
  using assms
  by (induction bs arbitrary: s)
     (auto simp add: fetchBroadcastDetails_eq Let_def split: option.splits)

lemma writes_matchAndStore:
  assumes "\<not> ok (broadcast_endpoint up apiKey ident)"
    and "k = ''rss_broadcast_'' @ ident @ ''_info'' \<or> k = ''rss_broadcast_'' @ ident @ ''_info_md''"
  shows "writes_to k (trace (matchAndStore up td apiKey bs es s)) = writes_to k (trace s)"
  using assms
  by (induction bs arbitrary: s)
     (auto simp add: fetchBroadcastDetails_eq fetchEmailDetails_eq Let_def split: option.splits)

lemma fst_GET_historical_returned:
  assumes "authorization req = Some (''Bearer '' @ interpolate (CRON_SECRET e))"
    and "truthy (RESEND_API_KEY e)" and "truthy (RESEND_AUDIENCE_ID e)"
    and "apiKey = narrowed (RESEND_API_KEY e)"
    and "audienceId = narrowed (RESEND_AUDIENCE_ID e)"
    and "ok (audiences_endpoint up apiKey)"
    and "ok (broadcasts_endpoint up apiKey)"
    and "fst (fetchEmailsIncrementally fuel up apiKey s) = Returned (N, A)"
  shows "fst (GET_historical fuel e up td req s) =
           Some \<lparr>code = 200,
                 json = SuccessEmails (length (audiences_of up apiKey))
                          (length (broadcasts_of up apiKey audienceId)) (length N) (length A)\<rparr>"
proof -
  let ?s6 = "lists_stored up apiKey audienceId s"
  have "fst (fetchEmailsIncrementally fuel up apiKey ?s6) = Returned (N, A)"
    using assms(8) fst_fetchEmailsIncrementally_cong[of ?s6 s fuel up apiKey]
    by (simp add: store_lists_stored)
  then obtain s7 where "fetchEmailsIncrementally fuel up apiKey ?s6 = (Returned (N, A), s7)"
    by (cases "fetchEmailsIncrementally fuel up apiKey ?s6") simp
  then show ?thesis
    using assms(1-7) by (simp add: GET_historical_lists_ok[where apiKey=apiKey and audienceId=audienceId])
qed

text \<open>
  C7. A broadcast whose detail call gets a non-2xx answer is skipped by both
  enrichment loops: the loop goes on with the remaining broadcasts from a state that
  only gained the call and its delay, and over the whole loop nothing is written under
  that broadcast's \<^verbatim>\<open>_info\<close> and \<^verbatim>\<open>_info_md\<close> keys. The run itself still ends with
  the success reply: the current route whenever the two list fetches succeeded, the
  historical route whenever in addition the email fetch returned.
\<close>

theorem C7_failed_detail_skips_the_broadcast:
  assumes "\<not> ok (broadcast_endpoint up apiKey (bc_id b))"
  shows "fetchAndStoreBroadcastsWithHtml up td apiKey (b # bs) s =
           fetchAndStoreBroadcastsWithHtml up td apiKey bs
             (sleep 500 (call apiKey (GetBroadcast (bc_id b)) s))
       \<and> matchAndStore up td apiKey (b # bs) emails s =
           matchAndStore up td apiKey bs emails
             (sleep 500 (call apiKey (GetBroadcast (bc_id b)) s))
       \<and> (\<forall>k\<in>{''rss_broadcast_'' @ bc_id b @ ''_info'', ''rss_broadcast_'' @ bc_id b @ ''_info_md''}.
            writes_to k (trace (fetchAndStoreBroadcastsWithHtml up td apiKey (b # bs) s)) =
              writes_to k (trace s)
          \<and> writes_to k (trace (matchAndStore up td apiKey (b # bs) emails s)) =
              writes_to k (trace s))
       \<and> (authorization req = Some (''Bearer '' @ interpolate (CRON_SECRET e))
          \<and> truthy (RESEND_API_KEY e) \<and> truthy (RESEND_AUDIENCE_ID e)
          \<and> apiKey = narrowed (RESEND_API_KEY e)
          \<and> ok (audiences_endpoint up apiKey) \<and> ok (broadcasts_endpoint up apiKey) \<longrightarrow>
            code (fst (GET_current e up td req s')) = 200
          \<and> (\<forall>N A. fst (fetchEmailsIncrementally fuel up apiKey s') = Returned (N, A) \<longrightarrow>
                map_option code (fst (GET_historical fuel e up td req s')) = Some 200))"
proof -
  have skip1: "fetchAndStoreBroadcastsWithHtml up td apiKey (b # bs) s =
           fetchAndStoreBroadcastsWithHtml up td apiKey bs
             (sleep 500 (call apiKey (GetBroadcast (bc_id b)) s))"
    using assms by (simp add: fetchBroadcastDetails_eq)
  have skip2: "matchAndStore up td apiKey (b # bs) emails s =
           matchAndStore up td apiKey bs emails
             (sleep 500 (call apiKey (GetBroadcast (bc_id b)) s))"
    using assms by (simp add: fetchBroadcastDetails_eq)
  have untouched: "\<forall>k\<in>{''rss_broadcast_'' @ bc_id b @ ''_info'', ''rss_broadcast_'' @ bc_id b @ ''_info_md''}.
            writes_to k (trace (fetchAndStoreBroadcastsWithHtml up td apiKey (b # bs) s)) =
              writes_to k (trace s)
          \<and> writes_to k (trace (matchAndStore up td apiKey (b # bs) emails s)) =
              writes_to k (trace s)"
    using writes_fetchAndStoreBroadcastsWithHtml[OF assms, of _ td "b # bs" s]
      writes_matchAndStore[OF assms, of _ td "b # bs" emails s]
    by blast
  have reply: "authorization req = Some (''Bearer '' @ interpolate (CRON_SECRET e))
          \<and> truthy (RESEND_API_KEY e) \<and> truthy (RESEND_AUDIENCE_ID e)
          \<and> apiKey = narrowed (RESEND_API_KEY e)
          \<and> ok (audiences_endpoint up apiKey) \<and> ok (broadcasts_endpoint up apiKey) \<longrightarrow>
            code (fst (GET_current e up td req s')) = 200
          \<and> (\<forall>N A. fst (fetchEmailsIncrementally fuel up apiKey s') = Returned (N, A) \<longrightarrow>
                map_option code (fst (GET_historical fuel e up td req s')) = Some 200)"
    by (auto simp add: GET_current_lists_ok[where audienceId="narrowed (RESEND_AUDIENCE_ID e)"]
          fst_GET_historical_returned[where audienceId="narrowed (RESEND_AUDIENCE_ID e)"])
  from skip1 skip2 untouched reply show ?thesis by blast
qed

theorem C7_witness:
  "\<not> ok (broadcast_endpoint sample_upstream ''key''
           (bc_id (sample_broadcast ''b3'' ''a1'' None None None)))
   \<and> fetchAndStoreBroadcastsWithHtml sample_upstream id ''key''
         [sample_broadcast ''b3'' ''a1'' None None None,
          sample_broadcast ''b1'' ''a1'' None None None] fresh_sys =
       fetchAndStoreBroadcastsWithHtml sample_upstream id ''key''
         [sample_broadcast ''b1'' ''a1'' None None None]
         (sleep 500 (call ''key''
            (GetBroadcast (bc_id (sample_broadcast ''b3'' ''a1'' None None None))) fresh_sys))
   \<and> writes_to (''rss_broadcast_'' @ bc_id (sample_broadcast ''b3'' ''a1'' None None None) @ ''_info'')
         (trace (fetchAndStoreBroadcastsWithHtml sample_upstream id ''key''
            [sample_broadcast ''b3'' ''a1'' None None None,
             sample_broadcast ''b1'' ''a1'' None None None] fresh_sys)) = []
   \<and> code (fst (GET_current sample_env sample_upstream id sample_request fresh_sys)) = 200
   \<and> map_option code (fst (GET_historical 3 sample_env sample_upstream id sample_request fresh_sys))
       = Some 200"
proof -
  let ?b3 = "sample_broadcast ''b3'' ''a1'' None None None"
  let ?b1 = "sample_broadcast ''b1'' ''a1'' None None None"
  have h: "\<not> ok (broadcast_endpoint sample_upstream ''key'' (bc_id ?b3))"
    by (simp add: sample_upstream_def sample_broadcast_def refusal_def)
  have run: "authorization sample_request = Some (''Bearer '' @ interpolate (CRON_SECRET sample_env))
          \<and> truthy (RESEND_API_KEY sample_env) \<and> truthy (RESEND_AUDIENCE_ID sample_env)
          \<and> ''key'' = narrowed (RESEND_API_KEY sample_env)
          \<and> ok (audiences_endpoint sample_upstream ''key'')
          \<and> ok (broadcasts_endpoint sample_upstream ''key'')"
    by (simp add: sample_request_def sample_env_def sample_upstream_def answer_def)
  have fetched: "fst (fetchEmailsIncrementally 3 sample_upstream ''key'' fresh_sys) =
      Returned ([sample_email ''e3'' ''x@y.com'' ''Hi'' None, sample_email ''e2'' ''x@y.com'' ''Hi'' None,
                 sample_email ''e1'' ''x@y.com'' ''Old'' None],
                [sample_email ''e3'' ''x@y.com'' ''Hi'' None, sample_email ''e2'' ''x@y.com'' ''Hi'' None,
                 sample_email ''e1'' ''x@y.com'' ''Old'' None])"
    by (simp add: fst_fetchEmailsIncrementally fresh_sys_def sample_upstream_def answer_def
          listing_of_def eval_nat_numeral Let_def sample_email_def)
  have empty: "writes_to (''rss_broadcast_'' @ bc_id ?b3 @ ''_info'') (trace fresh_sys) = []"
    by (simp add: fresh_sys_def)
  note inst = C7_failed_detail_skips_the_broadcast[OF h, of id "[?b1]" fresh_sys "[]"
         sample_request sample_env fresh_sys 3]
  from inst have skipped:
    "fetchAndStoreBroadcastsWithHtml sample_upstream id ''key'' [?b3, ?b1] fresh_sys =
       fetchAndStoreBroadcastsWithHtml sample_upstream id ''key'' [?b1]
         (sleep 500 (call ''key'' (GetBroadcast (bc_id ?b3)) fresh_sys))"
    by (rule conjunct1)
  from inst have "writes_to (''rss_broadcast_'' @ bc_id ?b3 @ ''_info'')
         (trace (fetchAndStoreBroadcastsWithHtml sample_upstream id ''key'' [?b3, ?b1] fresh_sys))
       = writes_to (''rss_broadcast_'' @ bc_id ?b3 @ ''_info'') (trace fresh_sys)"
    by blast
  from this empty have unwritten: "writes_to (''rss_broadcast_'' @ bc_id ?b3 @ ''_info'')
         (trace (fetchAndStoreBroadcastsWithHtml sample_upstream id ''key'' [?b3, ?b1] fresh_sys))
       = []"
    by (rule trans)
  from inst run have ok200:
    "code (fst (GET_current sample_env sample_upstream id sample_request fresh_sys)) = 200"
    by blast
  from inst run fetched have hist200:
    "map_option code (fst (GET_historical 3 sample_env sample_upstream id sample_request fresh_sys))
       = Some 200"
    by blast
  from h skipped unwritten ok200 hist200 show ?thesis by blast
qed

section \<open>The two modes of the email fetch\<close>

lemma loop_incremental:
  assumes "truthy lastEmailId"
  shows "fetchEmailsIncrementally_loop (Suc n) up apiKey lastEmailId [] lastEmailId s =
    (let r = emails_endpoint up apiKey lastEmailId;
         s1 = call apiKey (ListEmails lastEmailId) s
     in if \<not> ok r then (Thrown (FailedToFetchEmails (status r)), s1)
        else if or_empty (data (body r)) = [] then (Returned [], s1)
        else (Returned (or_empty (data (body r))), sleep 500 s1))"
  using assms by (simp add: Let_def)

lemma loop_full:
  assumes "\<not> truthy lastEmailId"
  shows "paginates up apiKey cur ps \<Longrightarrow> length ps \<le> n \<Longrightarrow>
     fst (fetchEmailsIncrementally_loop n up apiKey lastEmailId acc cur s) =
       Returned (acc @ concat ps)
     \<and> calls (trace (snd (fetchEmailsIncrementally_loop n up apiKey lastEmailId acc cur s))) =
       calls (trace s) @ map ListEmails (anchors cur ps)"
proof (induction up apiKey cur ps arbitrary: n acc s rule: paginates.induct)
  case (1 up apiKey cur)
  then show ?case by simp
next
  case (2 up apiKey cur p)
  then obtain m where n: "n = Suc m" by (cases n) auto
  from 2 assms show ?case
    by (auto simp add: n Let_def anchor_def)
next
  case (3 up apiKey cur p q ps)
  then obtain m where n: "n = Suc m" by (cases n) auto
  let ?r = "emails_endpoint up apiKey (anchor cur)"
  from "3.prems" have page: "ok ?r" "or_empty (data (body ?r)) = p" "p \<noteq> []"
      "or_false (has_more (body ?r))"
      and rest: "paginates up apiKey (Some (em_id (last p))) (q # ps)"
    by (simp_all add: Let_def)
  from "3.prems" n have len: "length (q # ps) \<le> m" by simp
  note IH = "3.IH"[OF refl rest len]
  show ?case
    using page assms IH[of "acc @ p" "sleep 500 (call apiKey (ListEmails (anchor cur)) s)"]
    by (simp add: n Let_def anchor_def)
qed

lemma calls_reads_done [simp]: "calls (trace (reads_done s)) = calls (trace s)"
  by simp

text \<open>
  C5. When the stored cursor exists (it is a non-empty string), the email fetch sends
  exactly one request, anchored at that cursor, and stops whatever the page says about
  more pages: it throws on a non-2xx answer and otherwise returns that one page. With
  no stored cursor, whenever the provider hands out the pages \<open>ps\<close> one after the
  other, each but the last non-empty and reporting more, the last empty or reporting no
  more, the fetch requests exactly those pages, each anchored at the last id of the page
  before, and returns their concatenation in the order received; a bound of
  \<open>length ps\<close> requests is enough for it to return.
\<close>

theorem C5_one_page_with_cursor_all_pages_without:
  "(truthy (lastEmailId_of (store s ''rss_last_email_id'')) \<longrightarrow>
      calls (trace (snd (fetchEmailsIncrementally (Suc n) up apiKey s))) =
        calls (trace s) @ [ListEmails (lastEmailId_of (store s ''rss_last_email_id''))]
      \<and> fst (fetchEmailsIncrementally (Suc n) up apiKey s) =
         (let r = emails_endpoint up apiKey (lastEmailId_of (store s ''rss_last_email_id''))
          in if \<not> ok r then Thrown (FailedToFetchEmails (status r))
             else Returned (or_empty (data (body r)),
                            or_empty (data (body r)) @ existingEmails_of (store s ''rss_emails''))))
   \<and> (\<not> truthy (lastEmailId_of (store s ''rss_last_email_id''))
        \<and> paginates up apiKey (lastEmailId_of (store s ''rss_last_email_id'')) ps
        \<and> length ps \<le> fuel \<longrightarrow>
      fst (fetchEmailsIncrementally fuel up apiKey s) =
        Returned (concat ps, concat ps @ existingEmails_of (store s ''rss_emails''))
      \<and> calls (trace (snd (fetchEmailsIncrementally fuel up apiKey s))) =
        calls (trace s) @
          map ListEmails (anchors (lastEmailId_of (store s ''rss_last_email_id'')) ps))"
proof -
  let ?l = "lastEmailId_of (store s ''rss_last_email_id'')"
  have incremental: "truthy ?l \<longrightarrow>
      calls (trace (snd (fetchEmailsIncrementally (Suc n) up apiKey s))) =
        calls (trace s) @ [ListEmails ?l]
      \<and> fst (fetchEmailsIncrementally (Suc n) up apiKey s) =
         (let r = emails_endpoint up apiKey ?l
          in if \<not> ok r then Thrown (FailedToFetchEmails (status r))
             else Returned (or_empty (data (body r)),
                            or_empty (data (body r)) @ existingEmails_of (store s ''rss_emails'')))"
  proof
    assume l: "truthy ?l"
    show "calls (trace (snd (fetchEmailsIncrementally (Suc n) up apiKey s))) =
        calls (trace s) @ [ListEmails ?l]
      \<and> fst (fetchEmailsIncrementally (Suc n) up apiKey s) =
         (let r = emails_endpoint up apiKey ?l
          in if \<not> ok r then Thrown (FailedToFetchEmails (status r))
             else Returned (or_empty (data (body r)),
                            or_empty (data (body r)) @ existingEmails_of (store s ''rss_emails'')))"
      unfolding snd_fetchEmailsIncrementally fst_fetchEmailsIncrementally loop_incremental[OF l]
      by (simp add: Let_def)
  qed
  have full: "\<not> truthy ?l \<and> paginates up apiKey ?l ps \<and> length ps \<le> fuel \<longrightarrow>
      fst (fetchEmailsIncrementally fuel up apiKey s) =
        Returned (concat ps, concat ps @ existingEmails_of (store s ''rss_emails''))
      \<and> calls (trace (snd (fetchEmailsIncrementally fuel up apiKey s))) =
        calls (trace s) @ map ListEmails (anchors ?l ps)"
  proof
    assume h: "\<not> truthy ?l \<and> paginates up apiKey ?l ps \<and> length ps \<le> fuel"
    then have l: "\<not> truthy ?l" and p: "paginates up apiKey ?l ps" and f: "length ps \<le> fuel"
      by simp_all
    from loop_full[OF l p f, of "[]" s] loop_full[OF l p f, of "[]" "reads_done s"]
    show "fst (fetchEmailsIncrementally fuel up apiKey s) =
        Returned (concat ps, concat ps @ existingEmails_of (store s ''rss_emails''))
      \<and> calls (trace (snd (fetchEmailsIncrementally fuel up apiKey s))) =
        calls (trace s) @ map ListEmails (anchors ?l ps)"
      by (simp add: snd_fetchEmailsIncrementally fst_fetchEmailsIncrementally)
  qed
  from incremental full show ?thesis by (rule conjI)
qed

theorem C5_witness:
  "truthy (lastEmailId_of (store (put ''rss_last_email_id'' (TextBlob ''e2'') fresh_sys)
             ''rss_last_email_id''))
   \<and> calls (trace (snd (fetchEmailsIncrementally (Suc 2) sample_upstream ''key''
                          (put ''rss_last_email_id'' (TextBlob ''e2'') fresh_sys)))) =
       calls (trace (put ''rss_last_email_id'' (TextBlob ''e2'') fresh_sys)) @
         [ListEmails (Some ''e2'')]
   \<and> \<not> truthy (lastEmailId_of (store fresh_sys ''rss_last_email_id''))
   \<and> paginates sample_upstream ''key'' (lastEmailId_of (store fresh_sys ''rss_last_email_id''))
        [[sample_email ''e3'' ''x@y.com'' ''Hi'' None, sample_email ''e2'' ''x@y.com'' ''Hi'' None],
         [sample_email ''e1'' ''x@y.com'' ''Old'' None]]
   \<and> length [[sample_email ''e3'' ''x@y.com'' ''Hi'' None, sample_email ''e2'' ''x@y.com'' ''Hi'' None],
         [sample_email ''e1'' ''x@y.com'' ''Old'' None]] \<le> (2::nat)
   \<and> fst (fetchEmailsIncrementally 2 sample_upstream ''key'' fresh_sys) =
       Returned ([sample_email ''e3'' ''x@y.com'' ''Hi'' None, sample_email ''e2'' ''x@y.com'' ''Hi'' None,
                  sample_email ''e1'' ''x@y.com'' ''Old'' None],
                 [sample_email ''e3'' ''x@y.com'' ''Hi'' None, sample_email ''e2'' ''x@y.com'' ''Hi'' None,
                  sample_email ''e1'' ''x@y.com'' ''Old'' None])
   \<and> calls (trace (snd (fetchEmailsIncrementally 2 sample_upstream ''key'' fresh_sys))) =
       [ListEmails None, ListEmails (Some ''e2'')]"
proof -
  let ?s = "put ''rss_last_email_id'' (TextBlob ''e2'') fresh_sys"
  let ?ps = "[[sample_email ''e3'' ''x@y.com'' ''Hi'' None, sample_email ''e2'' ''x@y.com'' ''Hi'' None],
         [sample_email ''e1'' ''x@y.com'' ''Old'' None]]"
  have c: "lastEmailId_of (store ?s ''rss_last_email_id'') = Some ''e2''" by simp
  have h1: "truthy (lastEmailId_of (store ?s ''rss_last_email_id''))" by simp
  have l: "lastEmailId_of (store fresh_sys ''rss_last_email_id'') = None"
    by (simp add: fresh_sys_def)
  have h2: "\<not> truthy (lastEmailId_of (store fresh_sys ''rss_last_email_id''))"
    by (simp add: l)
  have h3: "paginates sample_upstream ''key'' (lastEmailId_of (store fresh_sys ''rss_last_email_id''))
              ?ps"
    by (simp add: l sample_upstream_def answer_def listing_of_def anchor_def sample_email_def)
  have h4: "length ?ps \<le> (2::nat)" by simp
  have E: "existingEmails_of (store fresh_sys ''rss_emails'') = []"
    by (simp add: fresh_sys_def)
  have t: "calls (trace fresh_sys) = []" by (simp add: fresh_sys_def)
  from C5_one_page_with_cursor_all_pages_without[of ?s 2 sample_upstream "''key''" ?ps 2] h1
  have one: "calls (trace (snd (fetchEmailsIncrementally (Suc 2) sample_upstream ''key'' ?s))) =
       calls (trace ?s) @ [ListEmails (Some ''e2'')]"
    unfolding c by blast
  from C5_one_page_with_cursor_all_pages_without[of fresh_sys 2 sample_upstream "''key''" ?ps 2]
    h2 h3 h4
  have "fst (fetchEmailsIncrementally 2 sample_upstream ''key'' fresh_sys) =
        Returned (concat ?ps, concat ?ps @ existingEmails_of (store fresh_sys ''rss_emails''))
      \<and> calls (trace (snd (fetchEmailsIncrementally 2 sample_upstream ''key'' fresh_sys))) =
        calls (trace fresh_sys) @
          map ListEmails (anchors (lastEmailId_of (store fresh_sys ''rss_last_email_id'')) ?ps)"
    by blast
  then have all: "fst (fetchEmailsIncrementally 2 sample_upstream ''key'' fresh_sys) =
       Returned ([sample_email ''e3'' ''x@y.com'' ''Hi'' None, sample_email ''e2'' ''x@y.com'' ''Hi'' None,
                  sample_email ''e1'' ''x@y.com'' ''Old'' None],
                 [sample_email ''e3'' ''x@y.com'' ''Hi'' None, sample_email ''e2'' ''x@y.com'' ''Hi'' None,
                  sample_email ''e1'' ''x@y.com'' ''Old'' None])
   \<and> calls (trace (snd (fetchEmailsIncrementally 2 sample_upstream ''key'' fresh_sys))) =
       [ListEmails None, ListEmails (Some ''e2'')]"
    by (simp add: E l t anchor_def sample_email_def)
  from h1 one h2 h3 h4 all show ?thesis by blast
qed

section \<open>Spacing of the upstream calls\<close>

lemma pace_put_audiences [simp]:
  "rested_after r (trace (put_audiences as s)) = rested_after r (trace s)"
  "spaced r (trace (put_audiences as s)) = spaced r (trace s)"
  by (induction as arbitrary: s) auto

lemma pace_put_broadcasts [simp]:
  "rested_after r (trace (put_broadcasts bs s)) = rested_after r (trace s)"
  "spaced r (trace (put_broadcasts bs s)) = spaced r (trace s)"
  by (induction bs arbitrary: s) auto

lemma pace_put_emails [simp]:
  "rested_after r (trace (put_emails es s)) = rested_after r (trace s)"
  "spaced r (trace (put_emails es s)) = spaced r (trace s)"
  by (induction es arbitrary: s) auto

lemma pace_put_last_email_id [simp]:
  "rested_after r (trace (put_last_email_id es s)) = rested_after r (trace s)"
  "spaced r (trace (put_last_email_id es s)) = spaced r (trace s)"
  by (cases es; simp)+












lemma matchAndStore_first_call:
  "prefix (trace s @ [Call apiKey (GetBroadcast (bc_id b))])
     (trace (matchAndStore up td apiKey (b # bs) es s))"
  by (auto simp add: fetchBroadcastDetails_eq fetchEmailDetails_eq Let_def prefix_matchAndStore
        split: option.splits)

lemma call_before_rest_not_spaced:
  assumes "prefix (t @ [Call apiKey rq]) t'" and "\<not> rested_after True t"
  shows "\<not> spaced True t'"
proof -
  from assms(1) obtain zs where "t' = (t @ [Call apiKey rq]) @ zs"
    by (auto elim: prefixE)
  with assms(2) show ?thesis by simp
qed

text \<open>
  What the theorem above leaves out: on an empty emails page the loop of the historical
  route leaves by \<^verbatim>\<open>break\<close> before its \<^verbatim>\<open>sleep\<close>, and the next upstream call, the
  first broadcast detail, follows with no delay in between.
\<close>

lemma historical_empty_page_skips_the_delay:
  "\<not> spaced True
       (trace (snd (GET_historical 1 sample_env quiet_upstream id sample_request fresh_sys)))"
proof -
  have h1: "authorization sample_request = Some (''Bearer '' @ interpolate (CRON_SECRET sample_env))"
    by (simp add: sample_request_def sample_env_def)
  have h2: "truthy (RESEND_API_KEY sample_env)" and h3: "truthy (RESEND_AUDIENCE_ID sample_env)"
    and k: "''key'' = narrowed (RESEND_API_KEY sample_env)"
    and a: "''a1'' = narrowed (RESEND_AUDIENCE_ID sample_env)"
    by (simp_all add: sample_env_def)
  have h4: "ok (audiences_endpoint quiet_upstream ''key'')"
    and h5: "ok (broadcasts_endpoint quiet_upstream ''key'')"
    by (simp_all add: quiet_upstream_def sample_upstream_def answer_def)
  let ?b1 = "sample_broadcast ''b1'' ''a1'' None None None"
  let ?b3 = "sample_broadcast ''b3'' ''a1'' None None None"
  let ?s6 = "lists_stored quiet_upstream ''key'' ''a1'' fresh_sys"
  let ?s7 = "call ''key'' (ListEmails None) (reads_done ?s6)"
  let ?s10 = "put_last_email_id [] (put_emails [] (put ''rss_emails'' (EmailsBlob []) ?s7))"
  have bs: "broadcasts_of quiet_upstream ''key'' ''a1'' = [?b1, ?b3]"
    by (simp add: broadcasts_of_def quiet_upstream_def sample_upstream_def answer_def
          listing_of_def sample_broadcast_def)
  have fetch: "fetchEmailsIncrementally 1 quiet_upstream ''key'' ?s6 = (Returned ([], []), ?s7)"
    by (simp add: fetchEmailsIncrementally_eq store_lists_stored fresh_sys_def Let_def
          quiet_upstream_def sample_upstream_def answer_def listing_of_def)
  have final: "snd (GET_historical 1 sample_env quiet_upstream id sample_request fresh_sys) =
                 matchAndStore quiet_upstream id ''key'' [?b1, ?b3] [] ?s10"
    unfolding GET_historical_lists_ok[OF h1 h2 h3 k a h4 h5] fetch bs by simp
  have "\<not> rested_after True (trace ?s10)" by simp
  with matchAndStore_first_call[of ?s10 "''key''" ?b1 quiet_upstream id "[?b3]" "[]"]
  show ?thesis unfolding final by (rule call_before_rest_not_spaced)
qed

section \<open>Running the current route again\<close>

lemma overwritesI:
  "(\<And>s. store (f s) = (\<lambda>k. case w k of None \<Rightarrow> store s k | Some v \<Rightarrow> HeadUrl v)) \<Longrightarrow>
   overwrites f"
  unfolding overwrites_def by blast

lemma overwrites_same_store:
  "(\<And>s. store (f s) = store s) \<Longrightarrow> overwrites f"
  by (rule overwritesI[where w="\<lambda>k. None"]) simp

lemma overwrites_put: "overwrites (put k v)"
  by (rule overwritesI[where w="(\<lambda>k. None)(k := Some v)"]) auto

lemma overwrites_comp:
  assumes "overwrites f" and "overwrites g"
  shows "overwrites (\<lambda>s. g (f s))"
proof -
  from assms obtain wf wg
    where f: "\<And>s. store (f s) = (\<lambda>k. case wf k of None \<Rightarrow> store s k | Some v \<Rightarrow> HeadUrl v)"
      and g: "\<And>s. store (g s) = (\<lambda>k. case wg k of None \<Rightarrow> store s k | Some v \<Rightarrow> HeadUrl v)"
    unfolding overwrites_def by blast
  show ?thesis
    by (rule overwritesI[where w="wf ++ wg"])
       (auto simp add: f g map_add_def fun_eq_iff split: option.splits)
qed

lemma overwrites_twice:
  assumes "overwrites f"
  shows "store (f (f s)) = store (f s)"
proof -
  from assms obtain w
    where f: "\<And>s. store (f s) = (\<lambda>k. case w k of None \<Rightarrow> store s k | Some v \<Rightarrow> HeadUrl v)"
    unfolding overwrites_def by blast
  show ?thesis by (auto simp add: f[of "f s"] f[of s] fun_eq_iff split: option.splits)
qed

lemma overwrites_cong:
  assumes "overwrites f" and "store s = store s'"
  shows "store (f s) = store (f s')"
proof -
  from assms(1) obtain w
    where f: "\<And>s. store (f s) = (\<lambda>k. case w k of None \<Rightarrow> store s k | Some v \<Rightarrow> HeadUrl v)"
    unfolding overwrites_def by blast
  show ?thesis using assms(2) by (auto simp add: f fun_eq_iff split: option.splits)
qed

lemma overwrites_put_audiences: "overwrites (put_audiences as)"
proof (induction as)
  case Nil
  have "put_audiences [] = (\<lambda>s. s)" by (rule ext) simp
  then show ?case by (simp add: overwrites_same_store)
next
  case (Cons a as)
  have "put_audiences (a # as) =
          (\<lambda>s. put_audiences as (put (''rss_audience_'' @ aud_id a) (AudienceBlob a) s))"
    by (rule ext) simp
  then show ?case using overwrites_comp[OF overwrites_put Cons.IH] by simp
qed

lemma overwrites_put_broadcasts: "overwrites (put_broadcasts bs)"
proof (induction bs)
  case Nil
  have "put_broadcasts [] = (\<lambda>s. s)" by (rule ext) simp
  then show ?case by (simp add: overwrites_same_store)
next
  case (Cons b bs)
  have "put_broadcasts (b # bs) =
          (\<lambda>s. put_broadcasts bs (put (''rss_broadcast_'' @ bc_id b) (BroadcastBlob b) s))"
    by (rule ext) simp
  then show ?case using overwrites_comp[OF overwrites_put Cons.IH] by simp
qed

lemma overwrites_call_sleep: "overwrites (\<lambda>s. sleep ms (call apiKey rq s))"
  by (rule overwrites_same_store) simp

lemma overwrites_call: "overwrites (call apiKey rq)"
  by (rule overwrites_same_store) simp

lemma overwrites_fetchAndStoreBroadcastsWithHtml:
  "overwrites (fetchAndStoreBroadcastsWithHtml up td apiKey bs)"
proof (induction bs)
  case Nil
  have "fetchAndStoreBroadcastsWithHtml up td apiKey [] = (\<lambda>s. s)" by (rule ext) simp
  then show ?case by (simp add: overwrites_same_store)
next
  case (Cons b bs)
  let ?r = "broadcast_endpoint up apiKey (bc_id b)"
  let ?visit = "\<lambda>s. sleep 500 (call apiKey (GetBroadcast (bc_id b)) s)"
  show ?case
  proof (cases "ok ?r \<and> truthy (bc_html (body ?r))")
    case False
    then have "fetchAndStoreBroadcastsWithHtml up td apiKey (b # bs) =
          (\<lambda>s. fetchAndStoreBroadcastsWithHtml up td apiKey bs (?visit s))"
      by (intro ext) (auto simp add: fetchBroadcastDetails_eq split: option.splits)
    then show ?thesis using overwrites_comp[OF overwrites_call_sleep Cons.IH] by simp
  next
    case True
    then obtain html where html: "bc_html (body ?r) = Some html" "html \<noteq> []"
      by (auto simp add: truthy_iff)
    let ?store = "\<lambda>s. put (''rss_broadcast_'' @ bc_id b @ ''_info_md'') (BroadcastMd (body ?r) (td html))
                       (put (''rss_broadcast_'' @ bc_id b @ ''_info'') (BroadcastBlob (body ?r))
                          (?visit s))"
    have "fetchAndStoreBroadcastsWithHtml up td apiKey (b # bs) =
          (\<lambda>s. fetchAndStoreBroadcastsWithHtml up td apiKey bs (?store s))"
      using True html by (intro ext) (simp add: fetchBroadcastDetails_eq Let_def)
    moreover have "overwrites ?store"
      by (intro overwrites_comp[OF overwrites_comp[OF overwrites_call_sleep overwrites_put]
                                   overwrites_put])
    ultimately show ?thesis using overwrites_comp[OF _ Cons.IH, of ?store] by simp
  qed
qed

lemma overwrites_audiences_stored: "overwrites (audiences_stored up apiKey)"
proof -
  have "audiences_stored up apiKey =
        (\<lambda>s. put_audiences (audiences_of up apiKey)
                (put ''rss_audiences'' (AudiencesBlob (audiences_of up apiKey))
                   (sleep 500 (call apiKey ListAudiences s))))"
    by (rule ext) (simp add: audiences_stored_def)
  then show ?thesis
    using overwrites_comp[OF overwrites_comp[OF overwrites_call_sleep overwrites_put]
            overwrites_put_audiences]
    by simp
qed

lemma overwrites_lists_stored: "overwrites (lists_stored up apiKey audienceId)"
proof -
  have "lists_stored up apiKey audienceId =
        (\<lambda>s. put_broadcasts (broadcasts_of up apiKey audienceId)
                (put ''rss_broadcasts'' (BroadcastsBlob (broadcasts_of up apiKey audienceId))
                   (sleep 500 (call apiKey ListBroadcasts (audiences_stored up apiKey s)))))"
    by (rule ext) (simp add: lists_stored_def)
  then show ?thesis
    using overwrites_comp[OF overwrites_comp[OF overwrites_comp[OF overwrites_audiences_stored
            overwrites_call_sleep] overwrites_put] overwrites_put_broadcasts]
    by simp
qed

lemma overwrites_GET_current: "overwrites (\<lambda>s. snd (GET_current e up td req s))"
proof -
  let ?k = "narrowed (RESEND_API_KEY e)"
  let ?a = "narrowed (RESEND_AUDIENCE_ID e)"
  consider "authorization req \<noteq> Some (''Bearer '' @ interpolate (CRON_SECRET e))"
    | "authorization req = Some (''Bearer '' @ interpolate (CRON_SECRET e))"
      "\<not> truthy (RESEND_API_KEY e) \<or> \<not> truthy (RESEND_AUDIENCE_ID e)"
    | "authorization req = Some (''Bearer '' @ interpolate (CRON_SECRET e))"
      "truthy (RESEND_API_KEY e)" "truthy (RESEND_AUDIENCE_ID e)"
      "\<not> ok (audiences_endpoint up ?k)"
    | "authorization req = Some (''Bearer '' @ interpolate (CRON_SECRET e))"
      "truthy (RESEND_API_KEY e)" "truthy (RESEND_AUDIENCE_ID e)"
      "ok (audiences_endpoint up ?k)" "\<not> ok (broadcasts_endpoint up ?k)"
    | "authorization req = Some (''Bearer '' @ interpolate (CRON_SECRET e))"
      "truthy (RESEND_API_KEY e)" "truthy (RESEND_AUDIENCE_ID e)"
      "ok (audiences_endpoint up ?k)" "ok (broadcasts_endpoint up ?k)"
    by blast
  then show ?thesis
  proof cases
    case 1
    then show ?thesis by (simp add: GET_unauthorized(1) overwrites_same_store)
  next
    case 2
    then show ?thesis by (simp add: GET_unconfigured(1) overwrites_same_store)
  next
    case 3
    then show ?thesis
      by (simp add: GET_audiences_failed(1)[where apiKey="?k"] overwrites_call)
  next
    case 4
    then show ?thesis
      using overwrites_comp[OF overwrites_audiences_stored overwrites_call]
      by (simp add: GET_broadcasts_failed(1)[where apiKey="?k"])
  next
    case 5
    then show ?thesis
      using overwrites_comp[OF overwrites_lists_stored overwrites_fetchAndStoreBroadcastsWithHtml]
      by (simp add: GET_current_lists_ok[where apiKey="?k" and audienceId="?a"])
  qed
qed

lemma GET_current_twice:
  "store (snd (GET_current e up td req (snd (GET_current e up td req s)))) =
   store (snd (GET_current e up td req s))"
  using overwrites_twice[OF overwrites_GET_current] .

section \<open>Running the historical route again\<close>

lemma overwrites_pointwise:
  assumes "overwrites f" and "store s k = store s' k"
  shows "store (f s) k = store (f s') k"
proof -
  from assms(1) obtain w
    where f: "\<And>s. store (f s) = (\<lambda>k. case w k of None \<Rightarrow> store s k | Some v \<Rightarrow> HeadUrl v)"
    unfolding overwrites_def by blast
  show ?thesis using assms(2) by (simp add: f split: option.splits)
qed

lemma store_lists_stored_other:
  assumes "\<And>x. k \<noteq> ''rss_audience_'' @ x" and "k \<noteq> ''rss_audiences''"
    and "k \<noteq> ''rss_broadcasts''"
    and "\<And>b. b \<in> set (broadcasts_of up apiKey audienceId) \<Longrightarrow> k \<noteq> ''rss_broadcast_'' @ bc_id b"
  shows "store (lists_stored up apiKey audienceId s) k = store s k"
  using assms by (simp add: lists_stored_def store_put_broadcasts store_audiences_stored)

lemma store_matchAndStore_no_emails [simp]:
  "store (matchAndStore up td apiKey bs [] s) = store s"
  by (induction bs arbitrary: s)
     (auto simp add: fetchBroadcastDetails_eq matchingEmail_def split: option.splits)

lemma loop_nothing_new:
  assumes "\<not> ok (emails_endpoint up apiKey (anchor c))
           \<or> or_empty (data (body (emails_endpoint up apiKey (anchor c)))) = []"
  shows "fst (fetchEmailsIncrementally_loop (Suc n) up apiKey c [] c s) =
           (if ok (emails_endpoint up apiKey (anchor c)) then Returned []
            else Thrown (FailedToFetchEmails (status (emails_endpoint up apiKey (anchor c)))))"
  using assms by (auto simp add: Let_def anchor_def)

text \<open>The keys the email stages and the correlation stage of a run may write.\<close>

lemma store_email_stages_other:
  assumes "k \<noteq> ''rss_emails''" and "k \<noteq> ''rss_last_email_id''"
    and "\<And>x. k \<noteq> ''rss_email_'' @ x"
    and "\<And>b. b \<in> set bs \<Longrightarrow> k \<noteq> ''rss_broadcast_'' @ bc_id b @ ''_info''
                          \<and> k \<noteq> ''rss_broadcast_'' @ bc_id b @ ''_info_md''"
  shows "store (matchAndStore up td apiKey bs N
                  (put_last_email_id A (put_emails N (put ''rss_emails'' (EmailsBlob A) s)))) k =
         store s k"
  using assms
  by (simp add: store_matchAndStore store_put_last_email_id store_put_emails)

lemma distinct_info_keysD:
  assumes "distinct_info_keys bs" and "b \<in> set bs" and "b' \<in> set bs"
  shows "bc_id b \<noteq> bc_id b' @ ''_info''" and "bc_id b \<noteq> bc_id b' @ ''_info_md''"
  using assms by (auto simp add: distinct_info_keys_def list_all_iff)

lemma second_run_after_returned:
  assumes auth: "authorization req = Some (''Bearer '' @ interpolate (CRON_SECRET e))"
    and key: "truthy (RESEND_API_KEY e)" and aud: "truthy (RESEND_AUDIENCE_ID e)"
    and k: "apiKey = narrowed (RESEND_API_KEY e)"
    and a: "audienceId = narrowed (RESEND_AUDIENCE_ID e)"
    and oka: "ok (audiences_endpoint up apiKey)"
    and okb: "ok (broadcasts_endpoint up apiKey)"
    and bs: "bs = broadcasts_of up apiKey audienceId"
    and keys: "distinct_info_keys bs"
    and run1: "fetchEmailsIncrementally fuel up apiKey (lists_stored up apiKey audienceId s) =
                 (Returned (N, A), s7)"
    and s1: "s1 = matchAndStore up td apiKey bs N
                    (put_last_email_id A (put_emails N (put ''rss_emails'' (EmailsBlob A) s7)))"
    and new: "nothing_new up apiKey s1"
  shows "store (snd (GET_historical fuel e up td req s1)) = store s1"
proof -
  let ?L = "lists_stored up apiKey audienceId"
  have s7: "store s7 = store (?L s)"
    using store_fetchEmailsIncrementally[of fuel up apiKey "?L s"] run1 by simp
  have "store s1 ''rss_emails'' =
          store (put_last_email_id A (put ''rss_emails'' (EmailsBlob A) s7)) ''rss_emails''"
    unfolding s1 by (rule store_emails_written) simp
  then have emails1: "store s1 ''rss_emails'' = HeadUrl (EmailsBlob A)"
    by (simp add: store_put_last_email_id)
  have "store s1 ''rss_last_email_id'' =
          store (put_last_email_id A (put ''rss_emails'' (EmailsBlob A) s7)) ''rss_last_email_id''"
    unfolding s1 by (rule store_emails_written) simp
  then have cursor1: "A = x # xs \<Longrightarrow> store s1 ''rss_last_email_id'' = HeadUrl (TextBlob (em_id x))"
    for x xs
    by simp
  have again: "store (?L s1) k = store s1 k" for k
  proof -
    consider (emails) "k = ''rss_emails'' \<or> k = ''rss_last_email_id'' \<or> (\<exists>x. k = ''rss_email_'' @ x)"
      | (info) b where "b \<in> set bs"
          "k = ''rss_broadcast_'' @ bc_id b @ ''_info'' \<or> k = ''rss_broadcast_'' @ bc_id b @ ''_info_md''"
      | (other) "k \<noteq> ''rss_emails''" "k \<noteq> ''rss_last_email_id''" "\<And>x. k \<noteq> ''rss_email_'' @ x"
          "\<And>b. b \<in> set bs \<Longrightarrow> k \<noteq> ''rss_broadcast_'' @ bc_id b @ ''_info''
                          \<and> k \<noteq> ''rss_broadcast_'' @ bc_id b @ ''_info_md''"
      by blast
    then show ?thesis
    proof cases
      case emails
      then show ?thesis by (intro store_lists_stored_other) auto
    next
      case info
      have "k \<noteq> ''rss_broadcast_'' @ bc_id b'" if "b' \<in> set bs" for b'
        using info distinct_info_keysD[OF keys that info(1)] by auto
      with info show ?thesis unfolding bs by (intro store_lists_stored_other) auto
    next
      case other
      have "store s1 k = store s7 k"
        unfolding s1 using other by (intro store_email_stages_other) auto
      then have same: "store s1 k = store (?L s) k" by (simp add: s7)
      have "store (?L s1) k = store (?L (?L s)) k"
        using overwrites_lists_stored same by (rule overwrites_pointwise)
      also have "\<dots> = store (?L s) k"
        by (simp add: overwrites_twice[OF overwrites_lists_stored])
      finally show ?thesis by (simp add: same)
    qed
  qed
  then have L1: "store (?L s1) = store s1" by (rule ext)
  obtain n where fuel: "fuel = Suc n"
    using run1 by (cases fuel) (auto simp add: fetchEmailsIncrementally_eq)
  let ?c = "lastEmailId_of (store s1 ''rss_last_email_id'')"
  let ?r = "emails_endpoint up apiKey (anchor ?c)"
  have quiet: "\<not> ok ?r \<or> or_empty (data (body ?r)) = []"
    using new by (simp add: nothing_new_def Let_def)
  have fetched: "fst (fetchEmailsIncrementally fuel up apiKey (?L s1)) =
          (if ok ?r then Returned ([], A) else Thrown (FailedToFetchEmails (status ?r)))"
    unfolding fuel fst_fetchEmailsIncrementally L1 loop_nothing_new[OF quiet]
    by (simp add: emails1)
  obtain r2 s7' where run2: "fetchEmailsIncrementally fuel up apiKey (?L s1) = (r2, s7')"
    by (cases "fetchEmailsIncrementally fuel up apiKey (?L s1)")
  have s7': "store s7' = store s1"
    using store_fetchEmailsIncrementally[of fuel up apiKey "?L s1"] run2 L1 by simp
  have r2: "r2 = (if ok ?r then Returned ([], A) else Thrown (FailedToFetchEmails (status ?r)))"
    using fetched run2 by simp
  note unfold = GET_historical_lists_ok[OF auth key aud k a oka okb, of fuel td s1, unfolded run2]
  show ?thesis
  proof (cases "ok ?r")
    case False
    then show ?thesis unfolding unfold by (simp add: r2 s7')
  next
    case True
    then have "snd (GET_historical fuel e up td req s1) =
        matchAndStore up td apiKey (broadcasts_of up apiKey audienceId) []
          (put_last_email_id A (put_emails [] (put ''rss_emails'' (EmailsBlob A) s7')))"
      unfolding unfold by (simp add: r2)
    then have "store (snd (GET_historical fuel e up td req s1)) =
        store (put_last_email_id A (put ''rss_emails'' (EmailsBlob A) s7'))"
      by simp
    also have "\<dots> = store s1"
      using emails1 cursor1 by (cases A) (auto simp add: s7' fun_eq_iff)
    finally show ?thesis .
  qed
qed

lemma GET_historical_twice:
  assumes keys: "distinct_info_keys
                   (broadcasts_of up (narrowed (RESEND_API_KEY e)) (narrowed (RESEND_AUDIENCE_ID e)))"
    and new: "nothing_new up (narrowed (RESEND_API_KEY e)) (snd (GET_historical fuel e up td req s))"
  shows "store (snd (GET_historical fuel e up td req (snd (GET_historical fuel e up td req s)))) =
         store (snd (GET_historical fuel e up td req s))"
proof -
  let ?k = "narrowed (RESEND_API_KEY e)"
  let ?a = "narrowed (RESEND_AUDIENCE_ID e)"
  let ?L = "lists_stored up ?k ?a"
  consider "authorization req \<noteq> Some (''Bearer '' @ interpolate (CRON_SECRET e))"
    | "authorization req = Some (''Bearer '' @ interpolate (CRON_SECRET e))"
      "\<not> truthy (RESEND_API_KEY e) \<or> \<not> truthy (RESEND_AUDIENCE_ID e)"
    | "authorization req = Some (''Bearer '' @ interpolate (CRON_SECRET e))"
      "truthy (RESEND_API_KEY e)" "truthy (RESEND_AUDIENCE_ID e)"
      "\<not> ok (audiences_endpoint up ?k)"
    | "authorization req = Some (''Bearer '' @ interpolate (CRON_SECRET e))"
      "truthy (RESEND_API_KEY e)" "truthy (RESEND_AUDIENCE_ID e)"
      "ok (audiences_endpoint up ?k)" "\<not> ok (broadcasts_endpoint up ?k)"
    | "authorization req = Some (''Bearer '' @ interpolate (CRON_SECRET e))"
      "truthy (RESEND_API_KEY e)" "truthy (RESEND_AUDIENCE_ID e)"
      "ok (audiences_endpoint up ?k)" "ok (broadcasts_endpoint up ?k)"
    by blast
  then show ?thesis
  proof cases
    case 1
    then show ?thesis by (simp add: GET_unauthorized(2))
  next
    case 2
    then show ?thesis by (simp add: GET_unconfigured(2))
  next
    case 3
    then show ?thesis by (simp add: GET_audiences_failed(2)[where apiKey="?k"])
  next
    case 4
    have "overwrites (\<lambda>s. call ?k ListBroadcasts (audiences_stored up ?k s))"
      by (rule overwrites_comp[OF overwrites_audiences_stored overwrites_call])
    from overwrites_twice[OF this] 4 show ?thesis
      by (simp add: GET_broadcasts_failed(2)[where apiKey="?k"])
  next
    case 5
    note unfold = GET_historical_lists_ok[OF 5(1) 5(2) 5(3) refl refl 5(4) 5(5), of fuel td]
    obtain r s7 where run1: "fetchEmailsIncrementally fuel up ?k (?L s) = (r, s7)"
      by (cases "fetchEmailsIncrementally fuel up ?k (?L s)")
    have s7: "store s7 = store (?L s)"
      using store_fetchEmailsIncrementally[of fuel up ?k "?L s"] run1 by simp
    have stalled: "store (snd (GET_historical fuel e up td req s7)) = store s7"
      if "r = Running \<or> (\<exists>err. r = Thrown err)"
    proof -
      have L7: "store (?L s7) = store (?L s)"
        using overwrites_cong[OF overwrites_lists_stored s7]
        by (simp add: overwrites_twice[OF overwrites_lists_stored])
      obtain r2 s7' where run2: "fetchEmailsIncrementally fuel up ?k (?L s7) = (r2, s7')"
        by (cases "fetchEmailsIncrementally fuel up ?k (?L s7)")
      have "fst (fetchEmailsIncrementally fuel up ?k (?L s7)) =
            fst (fetchEmailsIncrementally fuel up ?k (?L s))"
        by (rule fst_fetchEmailsIncrementally_cong) (simp_all add: L7)
      then have r2: "r2 = r" using run1 run2 by simp
      have "store s7' = store (?L s7)"
        using store_fetchEmailsIncrementally[of fuel up ?k "?L s7"] run2 by simp
      then have "store s7' = store s7" by (simp add: L7 s7)
      with that show ?thesis unfolding unfold[of s7] run2 r2 by auto
    qed
    show ?thesis
    proof (cases r)
      case Running
      then have "snd (GET_historical fuel e up td req s) = s7" unfolding unfold run1 by simp
      with stalled Running show ?thesis by simp
    next
      case (Thrown err)
      then have "snd (GET_historical fuel e up td req s) = s7" unfolding unfold run1 by simp
      with stalled Thrown show ?thesis by simp
    next
      case (Returned na)
      obtain N A where na: "na = (N, A)" by (cases na)
      let ?s1 = "matchAndStore up td ?k (broadcasts_of up ?k ?a) N
                   (put_last_email_id A (put_emails N (put ''rss_emails'' (EmailsBlob A) s7)))"
      have s1: "snd (GET_historical fuel e up td req s) = ?s1"
        unfolding unfold run1 by (simp add: Returned na)
      from second_run_after_returned[OF 5(1) 5(2) 5(3) refl refl 5(4) 5(5) refl keys
             run1[unfolded Returned na] refl new[unfolded s1]]
      show ?thesis unfolding s1 .
    qed
  qed
qed

section \<open>Idempotence of a run\<close>

text \<open>
  C6, as the code has it. A second run of the current route against the same upstream
  snapshot leaves every key of the store as the first run left it. A second run of the
  historical route does so when the provider lists no new email at the cursor the first
  run left, and no broadcast id is another broadcast's id followed by \<^verbatim>\<open>_info\<close> or
  \<^verbatim>\<open>_info_md\<close>.
\<close>

theorem C6_second_run_leaves_the_store_unchanged:
  "store (snd (GET_current e up td req (snd (GET_current e up td req s)))) =
     store (snd (GET_current e up td req s))
   \<and> (distinct_info_keys
         (broadcasts_of up (narrowed (RESEND_API_KEY e)) (narrowed (RESEND_AUDIENCE_ID e)))
       \<and> nothing_new up (narrowed (RESEND_API_KEY e)) (snd (GET_historical fuel e up td req s))
       \<longrightarrow>
       store (snd (GET_historical fuel e up td req (snd (GET_historical fuel e up td req s)))) =
         store (snd (GET_historical fuel e up td req s)))"
  using GET_current_twice[of e up td req s] GET_historical_twice[of up e fuel td req s]
  by blast

theorem C6_witness:
  "distinct_info_keys
     (broadcasts_of sample_upstream (narrowed (RESEND_API_KEY sample_env))
        (narrowed (RESEND_AUDIENCE_ID sample_env)))
   \<and> nothing_new sample_upstream (narrowed (RESEND_API_KEY sample_env))
        (snd (GET_historical 2 sample_env sample_upstream id sample_request fresh_sys))
   \<and> store (snd (GET_historical 2 sample_env sample_upstream id sample_request
                   (snd (GET_historical 2 sample_env sample_upstream id sample_request fresh_sys)))) =
       store (snd (GET_historical 2 sample_env sample_upstream id sample_request fresh_sys))
   \<and> store (snd (GET_current sample_env sample_upstream id sample_request
                   (snd (GET_current sample_env sample_upstream id sample_request fresh_sys)))) =
       store (snd (GET_current sample_env sample_upstream id sample_request fresh_sys))"
proof -
  have h4: "ok (audiences_endpoint sample_upstream (narrowed (RESEND_API_KEY sample_env)))"
    and h5: "ok (broadcasts_endpoint sample_upstream (narrowed (RESEND_API_KEY sample_env)))"
    by (simp_all add: sample_upstream_def answer_def)
  have keys: "distinct_info_keys
     (broadcasts_of sample_upstream (narrowed (RESEND_API_KEY sample_env))
        (narrowed (RESEND_AUDIENCE_ID sample_env)))"
    by (simp add: distinct_info_keys_def broadcasts_of_def sample_upstream_def answer_def
          listing_of_def sample_broadcast_def sample_env_def)
  have fetched: "fst (fetchEmailsIncrementally 2 sample_upstream
                   (narrowed (RESEND_API_KEY sample_env)) fresh_sys) =
      Returned ([sample_email ''e3'' ''x@y.com'' ''Hi'' None, sample_email ''e2'' ''x@y.com'' ''Hi'' None,
                 sample_email ''e1'' ''x@y.com'' ''Old'' None],
                [sample_email ''e3'' ''x@y.com'' ''Hi'' None, sample_email ''e2'' ''x@y.com'' ''Hi'' None,
                 sample_email ''e1'' ''x@y.com'' ''Old'' None])"
    by (simp add: fst_fetchEmailsIncrementally fresh_sys_def sample_upstream_def answer_def
          listing_of_def eval_nat_numeral Let_def sample_email_def sample_env_def)
  have cursor: "store (snd (GET_historical 2 sample_env sample_upstream id sample_request fresh_sys))
                  ''rss_last_email_id'' = HeadUrl (TextBlob ''e3'')"
    using historical_emails_persisted[OF sample_authorized sample_key sample_audience h4 h5 fetched,
            of id]
    by (simp add: fresh_sys_def sample_email_def)
  have new: "nothing_new sample_upstream (narrowed (RESEND_API_KEY sample_env))
        (snd (GET_historical 2 sample_env sample_upstream id sample_request fresh_sys))"
  proof -
    have "emails_endpoint sample_upstream k (Some ''e3'') = answer (listing_of [] False)" for k
      by (simp add: sample_upstream_def)
    then show ?thesis
      using cursor by (simp add: nothing_new_def anchor_def answer_def listing_of_def)
  qed
  from C6_second_run_leaves_the_store_unchanged[of sample_env sample_upstream id sample_request
         fresh_sys 2] keys new
  show ?thesis by blast
qed

text \<open>
  The claim as stated fails for the historical route where the provider answers the
  request anchored at the cursor with a page that is not empty. Here the provider
  reads \<^verbatim>\<open>before\<close> as the full fetch relies on it, listing the emails older than the
  cursor: the second run fetches the older email again and prepends it.
\<close>

theorem C6_counterexample:
  "store (snd (GET_historical 1 sample_env older_upstream id sample_request fresh_sys))
     ''rss_emails'' = HeadUrl (EmailsBlob [sample_email ''e2'' ''x@y.com'' ''Hi'' None,
                                           sample_email ''e1'' ''x@y.com'' ''Old'' None])
   \<and> store (snd (GET_historical 1 sample_env older_upstream id sample_request
                   (snd (GET_historical 1 sample_env older_upstream id sample_request fresh_sys))))
     ''rss_emails'' = HeadUrl (EmailsBlob [sample_email ''e1'' ''x@y.com'' ''Old'' None,
                                           sample_email ''e2'' ''x@y.com'' ''Hi'' None,
                                           sample_email ''e1'' ''x@y.com'' ''Old'' None])"
proof -
  let ?e2 = "sample_email ''e2'' ''x@y.com'' ''Hi'' None"
  let ?e1 = "sample_email ''e1'' ''x@y.com'' ''Old'' None"
  let ?s1 = "snd (GET_historical 1 sample_env older_upstream id sample_request fresh_sys)"
  have h4: "ok (audiences_endpoint older_upstream (narrowed (RESEND_API_KEY sample_env)))"
    and h5: "ok (broadcasts_endpoint older_upstream (narrowed (RESEND_API_KEY sample_env)))"
    by (simp_all add: older_upstream_def sample_upstream_def answer_def)
  have page0: "emails_endpoint older_upstream k None = answer (listing_of [?e2, ?e1] False)"
    and page2: "emails_endpoint older_upstream k (Some ''e2'') = answer (listing_of [?e1] False)"
    for k
    by (simp_all add: older_upstream_def)
  have first: "fst (fetchEmailsIncrementally 1 older_upstream
                   (narrowed (RESEND_API_KEY sample_env)) fresh_sys) =
                 Returned ([?e2, ?e1], [?e2, ?e1])"
    by (simp add: fst_fetchEmailsIncrementally fresh_sys_def page0 answer_def listing_of_def Let_def)
  note run1 = historical_emails_persisted[OF sample_authorized sample_key sample_audience h4 h5
                first, of id]
  have emails1: "store ?s1 ''rss_emails'' = HeadUrl (EmailsBlob [?e2, ?e1])"
    and cursor1: "store ?s1 ''rss_last_email_id'' = HeadUrl (TextBlob ''e2'')"
    using run1 by (simp_all add: fresh_sys_def sample_email_def)
  have second: "fst (fetchEmailsIncrementally 1 older_upstream
                   (narrowed (RESEND_API_KEY sample_env)) ?s1) =
                  Returned ([?e1], [?e1, ?e2, ?e1])"
    using emails1 cursor1
    by (simp add: fst_fetchEmailsIncrementally page2 answer_def listing_of_def Let_def)
  note run2 = historical_emails_persisted[OF sample_authorized sample_key sample_audience h4 h5
                second, of id]
  have "store (snd (GET_historical 1 sample_env older_upstream id sample_request ?s1))
          ''rss_emails'' = HeadUrl (EmailsBlob [?e1, ?e2, ?e1])"
    using run2 by (simp add: emails1)
  with emails1 show ?thesis by simp
qed

text \<open>
  Why the historical half of C6 asks for distinct info keys: with the broadcasts \<open>b1\<close> and
  \<open>b1_info\<close>, the first run leaves the info record of \<open>b1\<close> under
  \<^verbatim>\<open>rss_broadcast_b1_info\<close>; the second run, which fetches no new email, writes the
  summary of \<open>b1_info\<close> there and does not write the info record again.
\<close>

lemma historical_second_run_with_colliding_ids:
  "nothing_new colliding_upstream ''key''
     (snd (GET_historical 1 sample_env colliding_upstream id sample_request fresh_sys))
   \<and> store (snd (GET_historical 1 sample_env colliding_upstream id sample_request fresh_sys))
       ''rss_broadcast_b1_info'' =
       HeadUrl (BroadcastBlob (sample_broadcast ''b1'' ''a1'' (Some ''Hi'') (Some ''x@y.com'')
                                 (Some ''<p>Hi</p>'')))
   \<and> store (snd (GET_historical 1 sample_env colliding_upstream id sample_request
                   (snd (GET_historical 1 sample_env colliding_upstream id sample_request fresh_sys))))
       ''rss_broadcast_b1_info'' =
       HeadUrl (BroadcastBlob (sample_broadcast ''b1_info'' ''a1'' None None None))"
proof -
  let ?up = colliding_upstream
  let ?b1 = "sample_broadcast ''b1'' ''a1'' None None None"
  let ?b1i = "sample_broadcast ''b1_info'' ''a1'' None None None"
  let ?e3 = "sample_email ''e3'' ''x@y.com'' ''Hi'' None"
  let ?G = "GET_historical 1 sample_env ?up id sample_request"
  let ?s1 = "snd (?G fresh_sys)"
  let ?L = "lists_stored ?up ''key'' ''a1''"
  have h4: "ok (audiences_endpoint ?up (narrowed (RESEND_API_KEY sample_env)))"
    and h5: "ok (broadcasts_endpoint ?up (narrowed (RESEND_API_KEY sample_env)))"
    by (simp_all add: colliding_upstream_def sample_upstream_def answer_def)
  have bs: "broadcasts_of ?up ''key'' ''a1'' = [?b1, ?b1i]"
    by (simp add: broadcasts_of_def colliding_upstream_def answer_def listing_of_def
          sample_broadcast_def)
  have page0: "emails_endpoint ?up k None = answer (listing_of [?e3] False)"
    and page3: "emails_endpoint ?up k (Some ''e3'') = answer (listing_of [] False)"
    and detail1: "broadcast_endpoint ?up k ''b1'' =
            answer (sample_broadcast ''b1'' ''a1'' (Some ''Hi'') (Some ''x@y.com'') (Some ''<p>Hi</p>''))"
    and detail2: "\<not> ok (broadcast_endpoint ?up k ''b1_info'')"
    and mail: "email_endpoint ?up k i = answer (sample_email i ''x@y.com'' ''Hi'' (Some ''<p>Hi</p>''))"
    for k i
    by (simp_all add: colliding_upstream_def sample_upstream_def refusal_def)
  have summary: "store (?L s) ''rss_broadcast_b1_info'' = HeadUrl (BroadcastBlob ?b1i)" for s
    by (simp add: lists_stored_def bs sample_broadcast_def)
  note unfold = GET_historical_lists_ok[OF sample_authorized sample_key sample_audience
      sample_key_eq[symmetric] sample_audience_eq[symmetric]
      h4[unfolded sample_key_eq] h5[unfolded sample_key_eq], of 1 id, unfolded bs]
  text \<open>The first run.\<close>
  have first: "fst (fetchEmailsIncrementally 1 ?up ''key'' fresh_sys) = Returned ([?e3], [?e3])"
    by (simp add: fst_fetchEmailsIncrementally fresh_sys_def page0 answer_def listing_of_def Let_def)
  have "fst (fetchEmailsIncrementally 1 ?up ''key'' (?L fresh_sys)) = Returned ([?e3], [?e3])"
    using first fst_fetchEmailsIncrementally_cong[of "?L fresh_sys" fresh_sys 1 ?up "''key''"]
    by (simp add: store_lists_stored)
  then obtain s7 where run1:
    "fetchEmailsIncrementally 1 ?up ''key'' (?L fresh_sys) = (Returned ([?e3], [?e3]), s7)"
    by (cases "fetchEmailsIncrementally 1 ?up ''key'' (?L fresh_sys)") simp
  have info1: "store ?s1 ''rss_broadcast_b1_info'' =
       HeadUrl (BroadcastBlob (sample_broadcast ''b1'' ''a1'' (Some ''Hi'') (Some ''x@y.com'')
                                 (Some ''<p>Hi</p>'')))"
    unfolding unfold[of fresh_sys] run1
    by (simp add: fetchBroadcastDetails_eq fetchEmailDetails_eq matchingEmail_def detail1 detail2
          mail answer_def sample_broadcast_def sample_email_def Let_def)
  note kept = historical_emails_persisted[OF sample_authorized sample_key sample_audience h4 h5
                first[folded sample_key_eq], of id]
  have emails1: "store ?s1 ''rss_emails'' = HeadUrl (EmailsBlob [?e3])"
    and cursor1: "store ?s1 ''rss_last_email_id'' = HeadUrl (TextBlob ''e3'')"
    using kept by (simp_all add: fresh_sys_def sample_email_def)
  have new: "nothing_new ?up ''key'' ?s1"
    using cursor1 by (simp add: nothing_new_def anchor_def page3 answer_def listing_of_def)
  text \<open>The second run.\<close>
  have "fst (fetchEmailsIncrementally 1 ?up ''key'' ?s1) = Returned ([], [?e3])"
    using emails1 cursor1
    by (simp add: fst_fetchEmailsIncrementally page3 answer_def listing_of_def Let_def)
  then have "fst (fetchEmailsIncrementally 1 ?up ''key'' (?L ?s1)) = Returned ([], [?e3])"
    using fst_fetchEmailsIncrementally_cong[of "?L ?s1" ?s1 1 ?up "''key''"]
    by (simp add: store_lists_stored)
  then obtain s7' where run2:
    "fetchEmailsIncrementally 1 ?up ''key'' (?L ?s1) = (Returned ([], [?e3]), s7')"
    by (cases "fetchEmailsIncrementally 1 ?up ''key'' (?L ?s1)") simp
  have s7': "store s7' = store (?L ?s1)"
    using store_fetchEmailsIncrementally[of 1 ?up "''key''" "?L ?s1"] unfolding run2 by simp
  have info2: "store (snd (?G ?s1)) ''rss_broadcast_b1_info'' = HeadUrl (BroadcastBlob ?b1i)"
    unfolding unfold[of ?s1] run2
    by (simp add: s7' summary del: matchAndStore.simps)
  from new info1 info2 show ?thesis by blast
qed

end
